theory Spec2Isabelle
  imports Main "HOL-Library.Sublist"
begin

section \<open>Strings\<close>

text \<open>
  Message texts are \<open>string\<close>s of ASCII characters. Python's \<open>needle in hay\<close> on strings is
  contiguous containment, \<open>sublist needle hay\<close>.
\<close>

abbreviation contains :: "string \<Rightarrow> string \<Rightarrow> bool" where
  "contains hay needle \<equiv> sublist needle hay"

definition upper_letters :: string where
  "upper_letters = ''ABCDEFGHIJKLMNOPQRSTUVWXYZ''"

definition lower_letters :: string where
  "lower_letters = ''abcdefghijklmnopqrstuvwxyz''"

definition lower_char :: "char \<Rightarrow> char" where
  "lower_char c = (case map_of (zip upper_letters lower_letters) c of Some d \<Rightarrow> d | None \<Rightarrow> c)"

definition upper_char :: "char \<Rightarrow> char" where
  "upper_char c = (case map_of (zip lower_letters upper_letters) c of Some d \<Rightarrow> d | None \<Rightarrow> c)"

text \<open>\<open>str.lower()\<close> on ASCII text.\<close>

definition lower :: "string \<Rightarrow> string" where
  "lower s = map lower_char s"

text \<open>
  \<open>str.title()\<close> on ASCII text: a letter that follows a non-letter is upper-cased, a letter
  that follows a letter is lower-cased, every other character is kept. The flag is
  CPython's \<open>previous_is_cased\<close>.
\<close>

fun title_from :: "bool \<Rightarrow> string \<Rightarrow> string" where
  "title_from previous_is_cased [] = []"
| "title_from previous_is_cased (c # cs) =
     (if c \<in> set lower_letters then
        (if previous_is_cased then c else upper_char c) # title_from True cs
      else if c \<in> set upper_letters then
        (if previous_is_cased then lower_char c else c) # title_from True cs
      else c # title_from False cs)"

definition title :: "string \<Rightarrow> string" where
  "title s = title_from False s"

definition digit_chars :: string where
  "digit_chars = ''0123456789''"

text \<open>\<open>str(n)\<close> for a non-negative integer, as the f-strings print \<open>len(buttons)\<close>.\<close>

function str_nat :: "nat \<Rightarrow> string" where
  "str_nat n = (if n < 10 then [digit_chars ! n] else str_nat (n div 10) @ [digit_chars ! (n mod 10)])"
  by pat_completeness auto
termination
  by (relation "measure id") auto

section \<open>Time\<close>

text \<open>
  A naive \<open>datetime\<close> is the number of microseconds since 0001-01-01 00:00:00, so that
  comparison is \<open>(<)\<close> on integers and adding a \<open>timedelta\<close> is addition.
\<close>

type_synonym datetime = int

definition timedelta_hours :: "int \<Rightarrow> int" where
  "timedelta_hours h = h * 3600000000"

text \<open>
  The collection keeps a date as a whole number of milliseconds: the driver encodes a
  \<open>datetime\<close>, in a document as in a query, with its microseconds divided by 1000 and
  the remainder dropped. \<open>bson_datetime d\<close> is the time that reaches the collection when
  the program hands it \<open>d\<close>. The dates that the program stores come from \<open>strptime\<close> with
  a format of whole minutes, which this encoding keeps as they are; a clock reading has
  microseconds, and a bound of a query computed from it loses them.
\<close>

definition bson_datetime :: "datetime \<Rightarrow> datetime" where
  "bson_datetime d = (d div 1000) * 1000"

section \<open>Exceptions\<close>

text \<open>
  The exceptions that the modelled operations raise, each with its message (\<open>str(e)\<close>).
  All three classes derive from \<open>Exception\<close>.
\<close>

datatype exn = ValueError string | PyMongoError string | TwilioRestException string

fun str_exn :: "exn \<Rightarrow> string" where
  "str_exn (ValueError m) = m"
| "str_exn (PyMongoError m) = m"
| "str_exn (TwilioRestException m) = m"

fun is_Exception :: "exn \<Rightarrow> bool" where
  "is_Exception (ValueError m) = True"
| "is_Exception (PyMongoError m) = True"
| "is_Exception (TwilioRestException m) = True"

fun is_ValueError :: "exn \<Rightarrow> bool" where
  "is_ValueError (ValueError m) = True"
| "is_ValueError (PyMongoError m) = False"
| "is_ValueError (TwilioRestException m) = False"

section \<open>Data model\<close>

text \<open>A document of the \<open>appointments\<close> collection; \<open>oid\<close> is its \<open>_id\<close>.\<close>

record appointment =
  oid :: nat
  customer_name :: string
  phone_number :: string
  service :: string
  appointment_date :: datetime
  reminder_sent :: bool
  follow_up_sent :: bool

text \<open>A quick-reply button \<open>{"reply": {"id": ..., "title": ...}}\<close>.\<close>

record button =
  reply_id :: string
  reply_title :: string

text \<open>
  What is handed to \<open>twilio_client.messages.create\<close>:
  \<^item> \<open>Text b\<close>: \<open>body=b\<close>;
  \<^item> \<open>Interactive m bs\<close>: \<open>body=json.dumps(...)\<close> of the interactive structure of app.py,
    whose body text is \<open>m\<close> and whose buttons are \<open>bs\<close>;
  \<^item> \<open>Persistent m bs\<close>: \<open>body=m, persistent_action=[...]\<close> built from \<open>bs\<close>, as in _app.py.
\<close>

datatype payload = Text string | Interactive string "button list" | Persistent string "button list"

record outbound =
  recipient :: string
  payload :: payload

datatype level = DEBUG | INFO | WARNING | ERROR

text \<open>
  The collaborators outside the repository:
  \<^item> \<open>strptime s\<close> is \<open>datetime.strptime(s, '%Y-%m-%d %H:%M')\<close>, \<open>Inl m\<close> when it raises
    \<open>ValueError(m)\<close>;
  \<^item> \<open>str_datetime d\<close> is \<open>str(d)\<close>;
  \<^item> \<open>twilio_fail n\<close> is the outcome of the \<open>n\<close>-th call of \<open>messages.create\<close> (counted
    from 0): \<open>None\<close> when the provider accepts the message, \<open>Some m\<close> when the call raises
    with message \<open>m\<close>;
  \<^item> \<open>mongo_fail n\<close> is the outcome of the \<open>n\<close>-th operation on the collection, likewise.
\<close>

record env =
  strptime :: "string \<Rightarrow> string + datetime"
  str_datetime :: "datetime \<Rightarrow> string"
  twilio_fail :: "nat \<Rightarrow> string option"
  mongo_fail :: "nat \<Rightarrow> string option"

text \<open>
  The state that the program reads and writes: the documents of the collection in
  their natural order, the next fresh \<open>_id\<close>, the number of collection operations made
  so far, every call of \<open>messages.create\<close> so far with whether it was accepted, and the log.
\<close>

record world =
  docs :: "appointment list"
  next_oid :: nat
  mongo_ops :: nat
  requests :: "(outbound \<times> bool) list"
  logs :: "(level \<times> string) list"

definition log_add :: "level \<Rightarrow> string \<Rightarrow> world \<Rightarrow> world" where
  "log_add l m w = w\<lparr>logs := logs w @ [(l, m)]\<rparr>"

subsection \<open>The provider\<close>

text \<open>\<open>twilio_client.messages.create\<close>; the result is the \<open>sid\<close> of the message.\<close>

definition messages_create :: "env \<Rightarrow> outbound \<Rightarrow> world \<Rightarrow> (exn + nat) \<times> world" where
  "messages_create e m w =
     (let n = length (requests w) in
      case twilio_fail e n of
        None \<Rightarrow> (Inr n, w\<lparr>requests := requests w @ [(m, True)]\<rparr>)
      | Some x \<Rightarrow> (Inl (TwilioRestException x), w\<lparr>requests := requests w @ [(m, False)]\<rparr>))"

subsection \<open>The collection\<close>

text \<open>Every operation on the collection is one round trip that may raise.\<close>

definition mongo_call :: "env \<Rightarrow> world \<Rightarrow> exn option \<times> world" where
  "mongo_call e w =
     (map_option PyMongoError (mongo_fail e (mongo_ops w)), w\<lparr>mongo_ops := Suc (mongo_ops w)\<rparr>)"

fun remove_first :: "('a \<Rightarrow> bool) \<Rightarrow> 'a list \<Rightarrow> 'a list" where
  "remove_first p [] = []"
| "remove_first p (x # xs) = (if p x then xs else x # remove_first p xs)"

fun update_first :: "('a \<Rightarrow> bool) \<Rightarrow> ('a \<Rightarrow> 'a) \<Rightarrow> 'a list \<Rightarrow> 'a list" where
  "update_first p f [] = []"
| "update_first p f (x # xs) = (if p x then f x # xs else x # update_first p f xs)"

text \<open>\<open>appointments.find_one(q)\<close>: the first document that matches, or \<open>None\<close>.\<close>

definition find_one ::
  "env \<Rightarrow> (appointment \<Rightarrow> bool) \<Rightarrow> world \<Rightarrow> (exn + appointment option) \<times> world" where
  "find_one e q w =
     (case mongo_call e w of
        (Some x, w') \<Rightarrow> (Inl x, w')
      | (None, w') \<Rightarrow> (Inr (List.find q (docs w')), w'))"

text \<open>\<open>appointments.find(q)\<close>, read to the end: the matching documents in natural order.\<close>

definition find_docs ::
  "env \<Rightarrow> (appointment \<Rightarrow> bool) \<Rightarrow> world \<Rightarrow> (exn + appointment list) \<times> world" where
  "find_docs e q w =
     (case mongo_call e w of
        (Some x, w') \<Rightarrow> (Inl x, w')
      | (None, w') \<Rightarrow> (Inr (filter q (docs w')), w'))"

text \<open>\<open>appointments.delete_one({"_id": i})\<close>.\<close>

definition delete_one :: "env \<Rightarrow> nat \<Rightarrow> world \<Rightarrow> (exn + unit) \<times> world" where
  "delete_one e i w =
     (case mongo_call e w of
        (Some x, w') \<Rightarrow> (Inl x, w')
      | (None, w') \<Rightarrow> (Inr (), w'\<lparr>docs := remove_first (\<lambda>a. oid a = i) (docs w')\<rparr>))"

text \<open>\<open>appointments.update_one({"_id": i}, {"$set": ...})\<close>, the update given as a function.\<close>

definition update_one ::
  "env \<Rightarrow> nat \<Rightarrow> (appointment \<Rightarrow> appointment) \<Rightarrow> world \<Rightarrow> (exn + unit) \<times> world" where
  "update_one e i f w =
     (case mongo_call e w of
        (Some x, w') \<Rightarrow> (Inl x, w')
      | (None, w') \<Rightarrow> (Inr (), w'\<lparr>docs := update_first (\<lambda>a. oid a = i) f (docs w')\<rparr>))"

text \<open>
  \<open>appointments.insert_one(doc)\<close>: the document is given without its \<open>_id\<close>, which is
  generated fresh.
\<close>

definition insert_one ::
  "env \<Rightarrow> (nat \<Rightarrow> appointment) \<Rightarrow> world \<Rightarrow> (exn + nat) \<times> world" where
  "insert_one e doc w =
     (case mongo_call e w of
        (Some x, w') \<Rightarrow> (Inl x, w')
      | (None, w') \<Rightarrow>
          (Inr (next_oid w'),
           w'\<lparr>docs := docs w' @ [doc (next_oid w')], next_oid := Suc (next_oid w')\<rparr>))"

section \<open>Notification dispatcher\<close>

text \<open>
  \<open>send_interactive_message\<close> of app.py: more than three buttons are cut to the first
  three, the interactive structure is sent in one message, and any exception is logged and
  turned into \<open>None\<close>.
\<close>

definition send_interactive_message ::
  "env \<Rightarrow> string \<Rightarrow> string \<Rightarrow> button list \<Rightarrow> world \<Rightarrow> nat option \<times> world" where
  "send_interactive_message e to message buttons w =
     (let (buttons', w1) =
        (if length buttons > 3
         then (take 3 buttons,
               log_add WARNING (''Too many buttons provided ('' @ str_nat (length buttons)
                 @ ''). Limiting to 3.'') w)
         else (buttons, w))
      in case messages_create e \<lparr>recipient = to, payload = Interactive message buttons'\<rparr> w1 of
           (Inr sid, w2) \<Rightarrow>
             (Some sid,
              log_add INFO (''Sent interactive message to '' @ to @ '' with ''
                @ str_nat (length buttons') @ '' buttons'') w2)
         | (Inl x, w2) \<Rightarrow>
             (None, log_add ERROR (''Failed to send interactive message: '' @ str_exn x) w2))"

text \<open>
  \<open>send_single_interactive_message\<close> of _app.py: more than two buttons are cut to the
  first two.
\<close>

definition send_single_interactive_message ::
  "env \<Rightarrow> string \<Rightarrow> string \<Rightarrow> button list \<Rightarrow> world \<Rightarrow> nat option \<times> world" where
  "send_single_interactive_message e to message buttons w =
     (let (buttons', w1) =
        (if length buttons > 2
         then (take 2 buttons,
               log_add WARNING (''Too many buttons provided ('' @ str_nat (length buttons)
                 @ ''). Limiting to 2.'') w)
         else (buttons, w))
      in case messages_create e \<lparr>recipient = to, payload = Persistent message buttons'\<rparr> w1 of
           (Inr sid, w2) \<Rightarrow>
             (Some sid,
              log_add INFO (''Sent single interactive message to '' @ to @ '' with ''
                @ str_nat (length buttons') @ '' buttons'') w2)
         | (Inl x, w2) \<Rightarrow>
             (None,
              log_add ERROR (''Failed to send single interactive message: '' @ str_exn x) w2))"

text \<open>
  \<open>[buttons[i:i + 5] for i in range(0, len(buttons), 5)]\<close> of _app.py, with
  \<open>max_buttons_per_message = 5\<close>.
\<close>

definition max_buttons_per_message :: nat where
  "max_buttons_per_message = 5"

function button_chunks :: "button list \<Rightarrow> button list list" where
  "button_chunks bs =
     (if bs = [] then []
      else take max_buttons_per_message bs # button_chunks (drop max_buttons_per_message bs))"
  by pat_completeness auto
termination
  by (relation "measure length") (auto simp: max_buttons_per_message_def)

fun send_chunks :: "env \<Rightarrow> string \<Rightarrow> string \<Rightarrow> button list list \<Rightarrow> world \<Rightarrow> world" where
  "send_chunks e to message [] w = w"
| "send_chunks e to message (chunk # chunks) w =
     send_chunks e to message chunks (snd (send_single_interactive_message e to message chunk w))"

text \<open>
  \<open>send_interactive_message\<close> of _app.py: one call of \<open>send_single_interactive_message\<close>
  per chunk. That call never raises, so the result is always \<open>True\<close>.
\<close>

definition send_interactive_message_chunked ::
  "env \<Rightarrow> string \<Rightarrow> string \<Rightarrow> button list \<Rightarrow> world \<Rightarrow> bool option \<times> world" where
  "send_interactive_message_chunked e to message buttons w =
     (Some True,
      log_add INFO (''Sent interactive message to '' @ to @ '' with ''
        @ str_nat (length buttons) @ '' buttons'')
        (send_chunks e to message (button_chunks buttons) w))"

section \<open>Conversation engine\<close>

text \<open>
  An inbound request: whether \<open>validate_twilio_request\<close> accepts it, the form values
  \<open>Body\<close> and \<open>From\<close> when present, and the text that \<open>request.values\<close> prints as.
\<close>

record request =
  signature_valid :: bool
  Body :: "string option"
  From :: "string option"
  values_text :: string

text \<open>
  What the HTTP caller gets: \<open>abort(403)\<close>, the TwiML response with the body of its one
  message (\<open>None\<close> when no body was set), or an exception that nothing caught.
\<close>

datatype http_response = Abort nat | Twiml "string option" | Uncaught exn

definition greeting_msg :: string where
  "greeting_msg = ''Welcome to our appointment booking service! How can we help you today?''"

definition greeting_buttons :: "button list" where
  "greeting_buttons =
     [\<lparr>reply_id = ''book_now'', reply_title = ''Book Now''\<rparr>,
      \<lparr>reply_id = ''book_later'', reply_title = ''Book Later''\<rparr>]"

definition service_prompt :: string where
  "service_prompt = ''What service would you like to book? (e.g., Haircut, Consultation, etc.)''"

definition book_later_reply :: string where
  "book_later_reply =
     ''No problem! When you're ready to book, just type 'book' and we'll assist you.''"

definition no_upcoming_reply :: string where
  "no_upcoming_reply = ''You don't have any upcoming appointments to cancel.''"

definition cancelled_reply :: "env \<Rightarrow> appointment \<Rightarrow> string" where
  "cancelled_reply e a =
     ''Your appointment for '' @ service a @ '' on '' @ str_datetime e (appointment_date a)
       @ '' has been cancelled.''"

definition date_prompt :: "string \<Rightarrow> string" where
  "date_prompt s =
     ''When would you like to schedule your '' @ s
       @ ''? Please provide the date and time in this format: YYYY-MM-DD HH:MM.''"

definition scheduled_reply :: "env \<Rightarrow> string \<Rightarrow> datetime \<Rightarrow> string" where
  "scheduled_reply e s d =
     ''Your '' @ s @ '' is scheduled for '' @ str_datetime e d
       @ ''. You will receive a reminder 24 hours before the appointment.''"

definition invalid_date_reply :: string where
  "invalid_date_reply =
     ''Invalid date format or date is in the past. Please use YYYY-MM-DD HH:MM for a future date and time.''"

definition fallback_reply :: string where
  "fallback_reply =
     ''I didn't understand that. Type 'hi' for options or 'book' to book an appointment.''"

definition error_reply :: string where
  "error_reply = ''An error occurred while processing your request. Please try again later.''"

text \<open>The document that the date branch inserts.\<close>

definition new_appointment :: "string \<Rightarrow> string \<Rightarrow> datetime \<Rightarrow> nat \<Rightarrow> appointment" where
  "new_appointment sender_number s d i =
     \<lparr>oid = i, customer_name = ''Customer'', phone_number = sender_number, service = s,
      appointment_date = d, reminder_sent = False, follow_up_sent = False\<rparr>"

text \<open>
  The inner \<open>try\<close> of the date branch, up to its \<open>except ValueError\<close>: parse, compare with
  \<open>datetime.now()\<close>, insert, set the body.
\<close>

definition date_entry ::
  "env \<Rightarrow> datetime \<Rightarrow> string \<Rightarrow> string \<Rightarrow> string \<Rightarrow> world \<Rightarrow> (exn + string option) \<times> world" where
  "date_entry e now incoming_msg sender_number s w =
     (case strptime e incoming_msg of
        Inl m \<Rightarrow> (Inl (ValueError m), w)
      | Inr date \<Rightarrow>
          if date < now then (Inl (ValueError ''Appointment date is in the past''), w)
          else
            (case insert_one e (new_appointment sender_number s date)
                    (log_add INFO (''Scheduling '' @ s @ '' for '' @ sender_number @ '' on ''
                       @ str_datetime e date @ ''.'') w) of
               (Inl x, w1) \<Rightarrow> (Inl x, w1)
             | (Inr i, w1) \<Rightarrow> (Inr (Some (scheduled_reply e s date)), w1)))"

text \<open>
  The body of the outer \<open>try\<close> of \<open>whatsapp_reply\<close>: the chain of \<open>if\<close>/\<open>elif\<close> in its order.
  \<open>Inl x\<close> is an exception that leaves the body, \<open>Inr b\<close> the body text set on the message.
  \<open>service\<close> is the local variable, \<open>''\<close> when the handler starts.
\<close>

definition handle_message ::
  "env \<Rightarrow> datetime \<Rightarrow> string \<Rightarrow> string \<Rightarrow> world \<Rightarrow> (exn + string option) \<times> world" where
  "handle_message e now incoming_msg sender_number w =
     (let service0 = [] in
      if contains incoming_msg ''hi'' \<or> contains incoming_msg ''hello'' then
        (Inr None, snd (send_interactive_message e sender_number greeting_msg greeting_buttons w))
      else if contains incoming_msg ''book_now'' \<or> contains incoming_msg ''book'' then
        (Inr (Some service_prompt),
         log_add DEBUG (''Asked '' @ sender_number @ '' for service type.'') w)
      else if contains incoming_msg ''book_later'' then
        (Inr (Some book_later_reply),
         log_add DEBUG (sender_number @ '' chose to book later.'') w)
      else if contains incoming_msg ''cancel_booking'' then
        (case find_one e (\<lambda>a. phone_number a = sender_number
                                \<and> bson_datetime now \<le> appointment_date a) w of
           (Inl x, w1) \<Rightarrow> (Inl x, w1)
         | (Inr (Some existing_appointment), w1) \<Rightarrow>
             (case delete_one e (oid existing_appointment) w1 of
                (Inl x, w2) \<Rightarrow> (Inl x, w2)
              | (Inr u, w2) \<Rightarrow>
                  (Inr (Some (cancelled_reply e existing_appointment)),
                   log_add DEBUG (sender_number @ '' attempted to cancel a booking.'')
                     (log_add INFO (''Cancelled appointment for '' @ sender_number) w2)))
         | (Inr None, w1) \<Rightarrow>
             (Inr (Some no_upcoming_reply),
              log_add DEBUG (sender_number @ '' attempted to cancel a booking.'') w1))
      else if contains incoming_msg ''haircut'' \<or> contains incoming_msg ''consultation'' then
        (let service1 = title incoming_msg in
         (Inr (Some (date_prompt service1)),
          log_add DEBUG (sender_number @ '' is booking a '' @ service1 @ ''.'') w))
      else if length incoming_msg = 16 then
        (case date_entry e now incoming_msg sender_number service0 w of
           (Inl x, w1) \<Rightarrow>
             if is_ValueError x then
               (Inr (Some invalid_date_reply),
                log_add ERROR (''Invalid date format provided by '' @ sender_number @ '': ''
                  @ incoming_msg @ ''. Error: '' @ str_exn x) w1)
             else (Inl x, w1)
         | (Inr b, w1) \<Rightarrow> (Inr b, w1))
      else
        (Inr (Some fallback_reply),
         log_add WARNING (''Unrecognized message from '' @ sender_number @ '': '' @ incoming_msg) w))"

text \<open>
  \<open>whatsapp_reply\<close> of app.py. \<open>now\<close> is what \<open>datetime.now()\<close> returns while the request
  is handled; \<open>incoming_msg_of r\<close> is \<open>request.values.get('Body', '').lower()\<close> and
  \<open>sender_number_of r\<close> is \<open>request.values.get('From', '')\<close>.
\<close>

definition incoming_msg_of :: "request \<Rightarrow> string" where
  "incoming_msg_of r = lower (case Body r of None \<Rightarrow> [] | Some b \<Rightarrow> b)"

definition sender_number_of :: "request \<Rightarrow> string" where
  "sender_number_of r = (case From r of None \<Rightarrow> [] | Some f \<Rightarrow> f)"

text \<open>The two log lines written before the \<open>try\<close>.\<close>

definition log_received :: "request \<Rightarrow> world \<Rightarrow> world" where
  "log_received r w =
     log_add DEBUG (''Full request details: '' @ values_text r)
       (log_add INFO (''Received message from '' @ sender_number_of r @ '': ''
          @ incoming_msg_of r) w)"

definition whatsapp_reply :: "env \<Rightarrow> datetime \<Rightarrow> request \<Rightarrow> world \<Rightarrow> http_response \<times> world" where
  "whatsapp_reply e now r w =
     (if \<not> signature_valid r then (Abort 403, w)
      else
        (let incoming_msg = incoming_msg_of r;
             sender_number = sender_number_of r;
             w0 = log_received r w
         in case handle_message e now incoming_msg sender_number w0 of
              (Inr b, w1) \<Rightarrow> (Twiml b, w1)
            | (Inl x, w1) \<Rightarrow>
                if is_Exception x then
                  (Twiml (Some error_reply),
                   log_add ERROR (''Error processing message from '' @ sender_number @ '': ''
                     @ str_exn x) w1)
                else (Uncaught x, w1)))"

section \<open>Sweep jobs\<close>

definition reminder_text :: "env \<Rightarrow> appointment \<Rightarrow> string" where
  "reminder_text e a =
     ''Reminder: Your '' @ service a @ '' appointment is scheduled for ''
       @ str_datetime e (appointment_date a) @ ''.''"

definition follow_up_text :: "appointment \<Rightarrow> string" where
  "follow_up_text a =
     ''Hope you enjoyed your '' @ service a @ ''! Let us know if you need anything else.''"

definition sent_info :: "env \<Rightarrow> string \<Rightarrow> appointment \<Rightarrow> string" where
  "sent_info e what a =
     ''Sent '' @ what @ '' to '' @ phone_number a @ '' for '' @ service a @ '' on ''
       @ str_datetime e (appointment_date a) @ ''.''"

definition failed_text :: "string \<Rightarrow> appointment \<Rightarrow> exn \<Rightarrow> string" where
  "failed_text what a x =
     ''Failed to send '' @ what @ '' to '' @ phone_number a @ '': '' @ str_exn x"

text \<open>
  The query of \<open>send_reminder\<close>, as the collection evaluates it: \<open>$gte\<close> and \<open>$lte\<close>
  against the two bounds as the driver encodes them.
\<close>

definition reminder_due :: "datetime \<Rightarrow> appointment \<Rightarrow> bool" where
  "reminder_due now a =
     (bson_datetime (now + timedelta_hours 23) \<le> appointment_date a
      \<and> appointment_date a \<le> bson_datetime (now + timedelta_hours 25)
      \<and> reminder_sent a = False)"

text \<open>The query of \<open>send_follow_up\<close>, likewise.\<close>

definition follow_up_due :: "datetime \<Rightarrow> appointment \<Rightarrow> bool" where
  "follow_up_due now a =
     (bson_datetime (now - timedelta_hours 24) \<le> appointment_date a
      \<and> appointment_date a \<le> bson_datetime now
      \<and> follow_up_sent a = False)"

text \<open>The \<open>for\<close> loop of \<open>send_reminder\<close>, with its \<open>try\<close>/\<open>except Exception\<close> per document.\<close>

fun reminder_loop :: "env \<Rightarrow> appointment list \<Rightarrow> world \<Rightarrow> world" where
  "reminder_loop e [] w = w"
| "reminder_loop e (a # as) w =
     reminder_loop e as
       (case messages_create e \<lparr>recipient = phone_number a, payload = Text (reminder_text e a)\<rparr> w of
          (Inl x, w1) \<Rightarrow> log_add ERROR (failed_text ''reminder'' a x) w1
        | (Inr sid, w1) \<Rightarrow>
            (case update_one e (oid a) (\<lambda>d. d\<lparr>reminder_sent := True\<rparr>)
                    (log_add INFO (sent_info e ''reminder'' a) w1) of
               (Inl x, w2) \<Rightarrow> log_add ERROR (failed_text ''reminder'' a x) w2
             | (Inr u, w2) \<Rightarrow> w2))"

text \<open>
  \<open>send_reminder\<close>. The query runs outside the \<open>try\<close>: when it raises, the job ends with
  that exception.
\<close>

definition send_reminder :: "env \<Rightarrow> datetime \<Rightarrow> world \<Rightarrow> (exn + unit) \<times> world" where
  "send_reminder e now w =
     (case find_docs e (reminder_due now) (log_add INFO ''Running reminder job.'' w) of
        (Inl x, w1) \<Rightarrow> (Inl x, w1)
      | (Inr reminder_appointments, w1) \<Rightarrow> (Inr (), reminder_loop e reminder_appointments w1))"

fun follow_up_loop :: "env \<Rightarrow> appointment list \<Rightarrow> world \<Rightarrow> world" where
  "follow_up_loop e [] w = w"
| "follow_up_loop e (a # as) w =
     follow_up_loop e as
       (case messages_create e \<lparr>recipient = phone_number a, payload = Text (follow_up_text a)\<rparr> w of
          (Inl x, w1) \<Rightarrow> log_add ERROR (failed_text ''follow-up'' a x) w1
        | (Inr sid, w1) \<Rightarrow>
            (case update_one e (oid a) (\<lambda>d. d\<lparr>follow_up_sent := True\<rparr>)
                    (log_add INFO (sent_info e ''follow-up'' a) w1) of
               (Inl x, w2) \<Rightarrow> log_add ERROR (failed_text ''follow-up'' a x) w2
             | (Inr u, w2) \<Rightarrow> w2))"

definition send_follow_up :: "env \<Rightarrow> datetime \<Rightarrow> world \<Rightarrow> (exn + unit) \<times> world" where
  "send_follow_up e now w =
     (case find_docs e (follow_up_due now) (log_add INFO ''Running follow-up job.'' w) of
        (Inl x, w1) \<Rightarrow> (Inl x, w1)
      | (Inr follow_up_appointments, w1) \<Rightarrow> (Inr (), follow_up_loop e follow_up_appointments w1))"

section \<open>The library functions on concrete inputs\<close>

text \<open>
  The theorems below hold for every \<open>env\<close>. To run the model on concrete requests, this
  section gives the two library functions of \<open>env\<close> for the inputs used there: the
  proleptic Gregorian calendar of Python's \<open>datetime\<close> (\<open>_ymd2ord\<close>, \<open>_ord2ymd\<close>), the
  parse of a zero-padded \<open>YYYY-MM-DD HH:MM\<close>, and the ISO text of \<open>str\<close>.
\<close>

definition is_leap :: "int \<Rightarrow> bool" where
  "is_leap year = (year mod 4 = 0 \<and> (year mod 100 \<noteq> 0 \<or> year mod 400 = 0))"

definition days_before_year :: "int \<Rightarrow> int" where
  "days_before_year year = (let y = year - 1 in y * 365 + y div 4 - y div 100 + y div 400)"

definition DAYS_IN_MONTH :: "int list" where
  "DAYS_IN_MONTH = [-1, 31, 28, 31, 30, 31, 30, 31, 31, 30, 31, 30, 31]"

definition DAYS_BEFORE_MONTH :: "int list" where
  "DAYS_BEFORE_MONTH = [-1, 0, 31, 59, 90, 120, 151, 181, 212, 243, 273, 304, 334]"

definition days_in_month :: "int \<Rightarrow> int \<Rightarrow> int" where
  "days_in_month year month =
     (if month = 2 \<and> is_leap year then 29 else DAYS_IN_MONTH ! nat month)"

definition days_before_month :: "int \<Rightarrow> int \<Rightarrow> int" where
  "days_before_month year month =
     DAYS_BEFORE_MONTH ! nat month + (if month > 2 \<and> is_leap year then 1 else 0)"

definition ymd2ord :: "int \<Rightarrow> int \<Rightarrow> int \<Rightarrow> int" where
  "ymd2ord year month day = days_before_year year + days_before_month year month + day"

text \<open>\<open>datetime(year, month, day, hour, minute)\<close>, for fields in range.\<close>

definition datetime_of :: "int \<Rightarrow> int \<Rightarrow> int \<Rightarrow> int \<Rightarrow> int \<Rightarrow> datetime" where
  "datetime_of year month day hour minute =
     (((ymd2ord year month day - 1) * 24 + hour) * 60 + minute) * 60000000"

definition ord2ymd :: "int \<Rightarrow> int \<times> int \<times> int" where
  "ord2ymd ordinal =
     (let n0 = ordinal - 1;
          n400 = n0 div 146097; n1 = n0 mod 146097;
          n100 = n1 div 36524; n2 = n1 mod 36524;
          n4 = n2 div 1461; n3 = n2 mod 1461;
          n1y = n3 div 365; n = n3 mod 365;
          year = n400 * 400 + 1 + n100 * 100 + n4 * 4 + n1y
      in if n1y = 4 \<or> n100 = 4 then (year - 1, 12, 31)
         else
           (let leapyear = (n1y = 3 \<and> (n4 \<noteq> 24 \<or> n100 = 3));
                month0 = (n + 50) div 32;
                preceding0 = DAYS_BEFORE_MONTH ! nat month0
                             + (if month0 > 2 \<and> leapyear then 1 else 0);
                month = (if preceding0 > n then month0 - 1 else month0);
                preceding =
                  (if preceding0 > n
                   then preceding0 - (DAYS_IN_MONTH ! nat month
                                      + (if month = 2 \<and> leapyear then 1 else 0))
                   else preceding0)
            in (year, month, n - preceding + 1)))"

definition digit_val :: "char \<Rightarrow> int option" where
  "digit_val c = map_of (zip digit_chars [0, 1, 2, 3, 4, 5, 6, 7, 8, 9]) c"

fun number_from :: "int \<Rightarrow> string \<Rightarrow> int option" where
  "number_from acc [] = Some acc"
| "number_from acc (c # cs) =
     (case digit_val c of None \<Rightarrow> None | Some d \<Rightarrow> number_from (acc * 10 + d) cs)"

definition field :: "string \<Rightarrow> nat \<Rightarrow> nat \<Rightarrow> int option" where
  "field s i n = number_from 0 (take n (drop i s))"

definition no_match :: "string + datetime" where
  "no_match = Inl ''time data does not match format''"

text \<open>
  \<open>datetime.strptime(s, '%Y-%m-%d %H:%M')\<close> for a zero-padded \<open>s\<close>; every other text is
  refused here.
\<close>

definition strptime_padded :: "string \<Rightarrow> string + datetime" where
  "strptime_padded s =
     (if length s \<noteq> 16 \<or> s ! 4 \<noteq> CHR ''-'' \<or> s ! 7 \<noteq> CHR ''-'' \<or> s ! 10 \<noteq> CHR '' ''
         \<or> s ! 13 \<noteq> CHR '':'' then no_match
      else
        (case (field s 0 4, field s 5 2, field s 8 2, field s 11 2, field s 14 2) of
           (Some year, Some month, Some day, Some hour, Some minute) \<Rightarrow>
             if 1 \<le> month \<and> month \<le> 12 \<and> 1 \<le> day \<and> hour \<le> 23 \<and> minute \<le> 59 then
               (if year = 0 then Inl ''year 0 is out of range''
                else if day > days_in_month year month then Inl ''day is out of range for month''
                else Inr (datetime_of year month day hour minute))
             else no_match
         | _ \<Rightarrow> no_match))"

definition pad :: "nat \<Rightarrow> int \<Rightarrow> string" where
  "pad width n = (let t = str_nat (nat n) in replicate (width - length t) CHR ''0'' @ t)"

text \<open>\<open>str(d)\<close>: \<open>YYYY-MM-DD HH:MM:SS\<close>, followed by the microseconds when they are not 0.\<close>

definition isoformat :: "datetime \<Rightarrow> string" where
  "isoformat d =
     (let us = d mod 1000000; secs = d div 1000000;
          ss = secs mod 60; mins = secs div 60;
          mm = mins mod 60; hrs = mins div 60;
          hh = hrs mod 24; days = hrs div 24;
          (year, month, day) = ord2ymd (days + 1)
      in pad 4 year @ ''-'' @ pad 2 month @ ''-'' @ pad 2 day @ '' ''
           @ pad 2 hh @ '':'' @ pad 2 mm @ '':'' @ pad 2 ss
           @ (if us = 0 then [] else ''.'' @ pad 6 us))"

definition always_ok :: "nat \<Rightarrow> string option" where
  "always_ok n = None"

definition never_ok :: "nat \<Rightarrow> string option" where
  "never_ok n = Some ''unavailable''"

definition env_of :: "(nat \<Rightarrow> string option) \<Rightarrow> (nat \<Rightarrow> string option) \<Rightarrow> env" where
  "env_of t m =
     \<lparr>strptime = strptime_padded, str_datetime = isoformat, twilio_fail = t, mongo_fail = m\<rparr>"

definition empty_world :: world where
  "empty_world = \<lparr>docs = [], next_oid = 0, mongo_ops = 0, requests = [], logs = []\<rparr>"

definition message_from :: "string \<Rightarrow> string \<Rightarrow> request" where
  "message_from sender text =
     \<lparr>signature_valid = True, Body = Some text, From = Some sender,
      values_text = ''Body='' @ text @ '', From='' @ sender\<rparr>"

definition alice :: string where
  "alice = ''whatsapp:+15550001''"

definition all_ok :: env where
  "all_ok = env_of always_ok always_ok"

definition store_down :: env where
  "store_down = env_of always_ok never_ok"

definition seven_buttons :: "button list" where
  "seven_buttons =
     [\<lparr>reply_id = ''b1'', reply_title = ''One''\<rparr>, \<lparr>reply_id = ''b2'', reply_title = ''Two''\<rparr>,
      \<lparr>reply_id = ''b3'', reply_title = ''Three''\<rparr>, \<lparr>reply_id = ''b4'', reply_title = ''Four''\<rparr>,
      \<lparr>reply_id = ''b5'', reply_title = ''Five''\<rparr>, \<lparr>reply_id = ''b6'', reply_title = ''Six''\<rparr>,
      \<lparr>reply_id = ''b7'', reply_title = ''Seven''\<rparr>]"

section \<open>Notions used in the statements\<close>

text \<open>
  The conditions under which the chain of \<open>handle_message\<close> arrives at its sixth branch:
  every earlier test fails and the text has 16 characters.
\<close>

definition reaches_date_entry :: "string \<Rightarrow> bool" where
  "reaches_date_entry m =
     (\<not> (contains m ''hi'' \<or> contains m ''hello'')
      \<and> \<not> (contains m ''book_now'' \<or> contains m ''book'')
      \<and> \<not> contains m ''book_later''
      \<and> \<not> contains m ''cancel_booking''
      \<and> \<not> (contains m ''haircut'' \<or> contains m ''consultation'')
      \<and> length m = 16)"

text \<open>
  The collection is well formed when no two documents share an \<open>_id\<close> and every \<open>_id\<close> in
  use was generated before.
\<close>

definition store_inv :: "world \<Rightarrow> bool" where
  "store_inv w = (distinct (map oid (docs w)) \<and> (\<forall>a \<in> set (docs w). oid a < next_oid w))"

text \<open>
  \<open>same_or_later a b\<close>: document \<open>b\<close> is a later state of document \<open>a\<close>: the same \<open>_id\<close>,
  the same date, and no flag reset.
\<close>

definition same_or_later :: "appointment \<Rightarrow> appointment \<Rightarrow> bool" where
  "same_or_later a b =
     (oid b = oid a \<and> appointment_date b = appointment_date a
      \<and> (reminder_sent a \<longrightarrow> reminder_sent b) \<and> (follow_up_sent a \<longrightarrow> follow_up_sent b))"

text \<open>
  \<open>evolves w w'\<close>: every document of \<open>w'\<close> whose \<open>_id\<close> existed in \<open>w\<close> is a later state of
  the document of \<open>w\<close> with that \<open>_id\<close>.
\<close>

definition evolves :: "world \<Rightarrow> world \<Rightarrow> bool" where
  "evolves w w' =
     (\<forall>a \<in> set (docs w). \<forall>b \<in> set (docs w'). oid b = oid a \<longrightarrow> same_or_later a b)"

text \<open>
  The calls of \<open>messages.create\<close> that a loop over \<open>as\<close> makes, one per element, when \<open>k\<close>
  calls were made before it: each element with whether the provider accepts its call.
\<close>

fun outcomes :: "env \<Rightarrow> nat \<Rightarrow> 'a list \<Rightarrow> ('a \<times> bool) list" where
  "outcomes e k [] = []"
| "outcomes e k (a # as) = (a, twilio_fail e k = None) # outcomes e (Suc k) as"

definition accepted :: "env \<Rightarrow> nat \<Rightarrow> 'a list \<Rightarrow> 'a list" where
  "accepted e k as = map fst (filter snd (outcomes e k as))"

definition reminder_msg :: "env \<Rightarrow> appointment \<Rightarrow> outbound" where
  "reminder_msg e a = \<lparr>recipient = phone_number a, payload = Text (reminder_text e a)\<rparr>"

definition follow_up_msg :: "appointment \<Rightarrow> outbound" where
  "follow_up_msg a = \<lparr>recipient = phone_number a, payload = Text (follow_up_text a)\<rparr>"

text \<open>
  The two loops have one shape: \<open>sweep_loop\<close> is that shape with the message, the word
  in the log lines and the flag update as parameters.
\<close>

fun sweep_loop ::
  "env \<Rightarrow> (appointment \<Rightarrow> outbound) \<Rightarrow> (appointment \<Rightarrow> string) \<Rightarrow> string
     \<Rightarrow> (appointment \<Rightarrow> appointment) \<Rightarrow> appointment list \<Rightarrow> world \<Rightarrow> world" where
  "sweep_loop e msg info what mark [] w = w"
| "sweep_loop e msg info what mark (a # as) w =
     sweep_loop e msg info what mark as
       (case messages_create e (msg a) w of
          (Inl x, w1) \<Rightarrow> log_add ERROR (failed_text what a x) w1
        | (Inr sid, w1) \<Rightarrow>
            (case update_one e (oid a) mark (log_add INFO (info a) w1) of
               (Inl x, w2) \<Rightarrow> log_add ERROR (failed_text what a x) w2
             | (Inr u, w2) \<Rightarrow> w2))"

text \<open>One pass of the body of that loop.\<close>

definition sweep_step ::
  "env \<Rightarrow> (appointment \<Rightarrow> outbound) \<Rightarrow> (appointment \<Rightarrow> string) \<Rightarrow> string
     \<Rightarrow> (appointment \<Rightarrow> appointment) \<Rightarrow> appointment \<Rightarrow> world \<Rightarrow> world" where
  "sweep_step e msg info what mark a w =
     (case messages_create e (msg a) w of
        (Inl x, w1) \<Rightarrow> log_add ERROR (failed_text what a x) w1
      | (Inr sid, w1) \<Rightarrow>
          (case update_one e (oid a) mark (log_add INFO (info a) w1) of
             (Inl x, w2) \<Rightarrow> log_add ERROR (failed_text what a x) w2
           | (Inr u, w2) \<Rightarrow> w2))"

text \<open>The world after one booking: \<open>alice\<close> sent a date in 2099 on 2024-01-01.\<close>

definition booked_world :: world where
  "booked_world =
     snd (whatsapp_reply all_ok (datetime_of 2024 1 1 0 0)
            (message_from alice ''2099-01-01 10:00'') empty_world)"

section \<open>Basic facts\<close>

lemma log_add_simps [simp]:
  "docs (log_add l m w) = docs w" "next_oid (log_add l m w) = next_oid w"
  "mongo_ops (log_add l m w) = mongo_ops w" "requests (log_add l m w) = requests w"
  "logs (log_add l m w) = logs w @ [(l, m)]"
  by (simp_all add: log_add_def)

lemma log_received_simps [simp]:
  "docs (log_received r w) = docs w" "next_oid (log_received r w) = next_oid w"
  "mongo_ops (log_received r w) = mongo_ops w" "requests (log_received r w) = requests w"
  by (simp_all add: log_received_def)

lemma lower_preserves_contains: "contains b v \<Longrightarrow> contains (lower b) (lower v)"
proof -
  assume "contains b v"
  then obtain ps ss where "b = ps @ v @ ss" by (auto simp: sublist_def)
  then have "lower b = lower ps @ lower v @ lower ss" by (simp add: lower_def)
  then show ?thesis unfolding sublist_def by blast
qed

lemmas str_eval = lower_def lower_char_def upper_letters_def lower_letters_def sublist_Cons_right

section \<open>Greeting\<close>

text \<open>
  Claim C3. Whatever the recipient, when the body of an authenticated message contains
  "hi" or "hello" in any mix of upper and lower case, with any text around it, the handler
  makes one call to the provider, through \<open>send_interactive_message\<close>, carrying exactly the
  two buttons Book Now and Book Later; the synchronous TwiML reply has no body; and the
  collection is neither changed nor queried.
\<close>

theorem greeting_offers_two_choices:
  assumes "signature_valid r" and "Body r = Some raw" and "contains raw v"
    and "lower v = ''hi'' \<or> lower v = ''hello''"
  shows "fst (whatsapp_reply e now r w) = Twiml None
     \<and> docs (snd (whatsapp_reply e now r w)) = docs w
     \<and> next_oid (snd (whatsapp_reply e now r w)) = next_oid w
     \<and> mongo_ops (snd (whatsapp_reply e now r w)) = mongo_ops w
     \<and> requests (snd (whatsapp_reply e now r w)) = requests w @
         [(\<lparr>recipient = sender_number_of r,
            payload = Interactive greeting_msg
              [\<lparr>reply_id = ''book_now'', reply_title = ''Book Now''\<rparr>,
               \<lparr>reply_id = ''book_later'', reply_title = ''Book Later''\<rparr>]\<rparr>,
           twilio_fail e (length (requests w)) = None)]"
proof -
  have "contains (incoming_msg_of r) (lower v)"
    using assms(2,3) lower_preserves_contains by (simp add: incoming_msg_of_def)
  then have "contains (incoming_msg_of r) ''hi'' \<or> contains (incoming_msg_of r) ''hello''"
    using assms(4) by auto
  then show ?thesis
    using assms(1)
    by (auto simp: whatsapp_reply_def handle_message_def send_interactive_message_def
        messages_create_def log_received_def greeting_buttons_def Let_def split: option.splits)
qed

theorem greeting_offers_two_choices_witness:
  "signature_valid (message_from alice ''Oh HELLO there'')
   \<and> Body (message_from alice ''Oh HELLO there'') = Some ''Oh HELLO there''
   \<and> contains ''Oh HELLO there'' ''HELLO''
   \<and> (lower ''HELLO'' = ''hi'' \<or> lower ''HELLO'' = ''hello'')
   \<and> fst (whatsapp_reply all_ok (datetime_of 2024 1 1 0 0)
             (message_from alice ''Oh HELLO there'') empty_world) = Twiml None
   \<and> requests (snd (whatsapp_reply all_ok (datetime_of 2024 1 1 0 0)
             (message_from alice ''Oh HELLO there'') empty_world)) =
         [(\<lparr>recipient = alice,
            payload = Interactive greeting_msg
              [\<lparr>reply_id = ''book_now'', reply_title = ''Book Now''\<rparr>,
               \<lparr>reply_id = ''book_later'', reply_title = ''Book Later''\<rparr>]\<rparr>,
           True)]"
proof -
  have h1: "signature_valid (message_from alice ''Oh HELLO there'')"
    by (simp add: message_from_def)
  have h2: "Body (message_from alice ''Oh HELLO there'') = Some ''Oh HELLO there''"
    by (simp add: message_from_def)
  have h3: "contains ''Oh HELLO there'' ''HELLO''"
    by (simp add: sublist_Cons_right)
  have h4: "lower ''HELLO'' = ''hi'' \<or> lower ''HELLO'' = ''hello''"
    by (simp add: str_eval)
  show ?thesis
    using h1 h2 h3 h4
      greeting_offers_two_choices[OF h1 h2 h3 h4, of all_ok "datetime_of 2024 1 1 0 0" empty_world]
    by (simp add: empty_world_def all_ok_def env_of_def always_ok_def sender_number_of_def
        message_from_def)
qed

section \<open>The chain of tests\<close>

text \<open>
  The texts "book_now", "book_later" and "cancel_booking" all contain "book", and the chain
  tests for "book" before it tests for the last two. So the third and the fourth branch of
  \<open>handle_message\<close> are never taken: the chain is equal to the one without them.
\<close>

lemma dead_branches:
  "contains m ''book_now'' \<Longrightarrow> contains m ''book''"
  "contains m ''book_later'' \<Longrightarrow> contains m ''book''"
  "contains m ''cancel_booking'' \<Longrightarrow> contains m ''book''"
proof -
  have a: "contains ''book_now'' ''book''" by (simp add: sublist_Cons_right)
  have b: "contains ''book_later'' ''book''" by (simp add: sublist_Cons_right)
  have c: "contains ''cancel_booking'' ''book''" by (simp add: sublist_Cons_right)
  show "contains m ''book_now'' \<Longrightarrow> contains m ''book''"
    using a sublist_order.order_trans by blast
  show "contains m ''book_later'' \<Longrightarrow> contains m ''book''"
    using b sublist_order.order_trans by blast
  show "contains m ''cancel_booking'' \<Longrightarrow> contains m ''book''"
    using c sublist_order.order_trans by blast
qed

lemma handle_message_live:
  "handle_message e now m s w =
     (if contains m ''hi'' \<or> contains m ''hello'' then
        (Inr None, snd (send_interactive_message e s greeting_msg greeting_buttons w))
      else if contains m ''book'' then
        (Inr (Some service_prompt), log_add DEBUG (''Asked '' @ s @ '' for service type.'') w)
      else if contains m ''haircut'' \<or> contains m ''consultation'' then
        (Inr (Some (date_prompt (title m))),
         log_add DEBUG (s @ '' is booking a '' @ title m @ ''.'') w)
      else if length m = 16 then
        (case date_entry e now m s [] w of
           (Inl x, w1) \<Rightarrow>
             if is_ValueError x then
               (Inr (Some invalid_date_reply),
                log_add ERROR (''Invalid date format provided by '' @ s @ '': ''
                  @ m @ ''. Error: '' @ str_exn x) w1)
             else (Inl x, w1)
         | (Inr b, w1) \<Rightarrow> (Inr b, w1))
      else
        (Inr (Some fallback_reply),
         log_add WARNING (''Unrecognized message from '' @ s @ '': '' @ m) w))"
proof (cases "contains m ''book''")
  case True
  then show ?thesis by (simp add: handle_message_def)
next
  case False
  then have "\<not> contains m ''book_now''" "\<not> contains m ''book_later''"
    "\<not> contains m ''cancel_booking''"
    using dead_branches by blast+
  then show ?thesis using False by (simp add: handle_message_def Let_def)
qed

lemma send_interactive_message_store:
  "docs (snd (send_interactive_message e to t bs w)) = docs w"
  "next_oid (snd (send_interactive_message e to t bs w)) = next_oid w"
  "mongo_ops (snd (send_interactive_message e to t bs w)) = mongo_ops w"
  by (simp_all add: send_interactive_message_def messages_create_def Let_def
      split: option.splits)

lemma shadowed_by_book:
  assumes "signature_valid r" and "contains (incoming_msg_of r) ''book''"
  shows "docs (snd (whatsapp_reply e now r w)) = docs w
     \<and> mongo_ops (snd (whatsapp_reply e now r w)) = mongo_ops w
     \<and> (fst (whatsapp_reply e now r w) = Twiml None
        \<or> fst (whatsapp_reply e now r w) = Twiml (Some service_prompt))"
  using assms
  by (auto simp: whatsapp_reply_def handle_message_live Let_def send_interactive_message_store)

lemma book_later_never_acknowledged:
  assumes "signature_valid r" and "contains (incoming_msg_of r) ''book_later''"
  shows "fst (whatsapp_reply e now r w) \<noteq> Twiml (Some book_later_reply)"
proof -
  have "service_prompt \<noteq> book_later_reply"
    by (simp add: service_prompt_def book_later_reply_def)
  then show ?thesis
    using shadowed_by_book[OF assms(1) dead_branches(2)[OF assms(2)], of e now w] by auto
qed

lemma cancel_booking_never_deletes:
  assumes "signature_valid r" and "contains (incoming_msg_of r) ''cancel_booking''"
  shows "docs (snd (whatsapp_reply e now r w)) = docs w
     \<and> mongo_ops (snd (whatsapp_reply e now r w)) = mongo_ops w"
  using shadowed_by_book[OF assms(1) dead_branches(3)[OF assms(2)], of e now w] by simp

text \<open>
  Claim C6 says that a message containing "book_later" gets the deferred-booking
  acknowledgment. The handler does not do that: on the message "book_later", the very
  payload of the Book Later button, the second test of the chain matches first and the
  reply is the prompt for a service. By \<open>book_later_never_acknowledged\<close> above this is so
  for every message that contains "book_later".
\<close>

theorem book_later_not_acknowledged:
  "fst (whatsapp_reply all_ok (datetime_of 2024 1 1 0 0)
          (message_from alice ''book_later'') empty_world) = Twiml (Some service_prompt)
   \<and> service_prompt \<noteq> book_later_reply"
  by code_simp

text \<open>
  Claim C2 says that a message containing "cancel_booking" cancels the recipient's next
  future appointment. The handler does not do that: \<open>alice\<close> has one appointment in the
  future, sends "cancel_booking", and is asked which service to book; the collection is
  not even queried and the appointment stays. By \<open>cancel_booking_never_deletes\<close> above
  this is so for every message that contains "cancel_booking".
\<close>

theorem cancel_booking_not_cancelled:
  "docs booked_world =
       [\<lparr>oid = 0, customer_name = ''Customer'', phone_number = alice, service = [],
         appointment_date = datetime_of 2099 1 1 10 0, reminder_sent = False,
         follow_up_sent = False\<rparr>]
   \<and> datetime_of 2024 1 1 0 0 < datetime_of 2099 1 1 10 0
   \<and> fst (whatsapp_reply all_ok (datetime_of 2024 1 1 0 0)
             (message_from alice ''cancel_booking'') booked_world) = Twiml (Some service_prompt)
   \<and> docs (snd (whatsapp_reply all_ok (datetime_of 2024 1 1 0 0)
             (message_from alice ''cancel_booking'') booked_world)) = docs booked_world
   \<and> mongo_ops (snd (whatsapp_reply all_ok (datetime_of 2024 1 1 0 0)
             (message_from alice ''cancel_booking'') booked_world)) = mongo_ops booked_world"
  by code_simp

section \<open>Date entry\<close>

lemma date_entry_docs:
  "(docs (snd (date_entry e now m s t w)) = docs w
      \<and> next_oid (snd (date_entry e now m s t w)) = next_oid w)
   \<or> (\<exists>a. docs (snd (date_entry e now m s t w)) = docs w @ [a] \<and> oid a = next_oid w
          \<and> next_oid (snd (date_entry e now m s t w)) = Suc (next_oid w))"
  by (simp add: date_entry_def insert_one_def mongo_call_def new_appointment_def
      split: sum.splits option.splits)

lemma date_entry_inserts:
  "docs (snd (date_entry e now m s t w)) = docs w @ [a] \<Longrightarrow> service a = t"
  by (auto simp: date_entry_def insert_one_def mongo_call_def new_appointment_def
      split: sum.splits option.splits if_splits)

lemma handle_message_docs:
  "(docs (snd (handle_message e now m s w)) = docs w
      \<and> next_oid (snd (handle_message e now m s w)) = next_oid w)
   \<or> (\<exists>a. docs (snd (handle_message e now m s w)) = docs w @ [a] \<and> oid a = next_oid w
          \<and> next_oid (snd (handle_message e now m s w)) = Suc (next_oid w))"
proof -
  obtain x w1 where d: "date_entry e now m s [] w = (x, w1)" by (cases "date_entry e now m s [] w")
  have "snd (date_entry e now m s [] w) = w1" using d by simp
  then show ?thesis
    using date_entry_docs[of e now m s "[]" w]
    unfolding handle_message_live d
    by (cases x) (auto simp: send_interactive_message_store)
qed

lemma handle_message_inserts:
  assumes "docs (snd (handle_message e now m s w)) = docs w @ [a]"
  shows "service a = []"
proof -
  obtain x w1 where d: "date_entry e now m s [] w = (x, w1)" by (cases "date_entry e now m s [] w")
  have "snd (date_entry e now m s [] w) = w1" using d by simp
  then show ?thesis
    using assms date_entry_inserts[of e now m s "[]" w a]
    unfolding handle_message_live d
    by (cases x) (auto simp: send_interactive_message_store split: if_splits)
qed

lemma whatsapp_reply_docs:
  "(docs (snd (whatsapp_reply e now r w)) = docs w
      \<and> next_oid (snd (whatsapp_reply e now r w)) = next_oid w)
   \<or> (\<exists>a. docs (snd (whatsapp_reply e now r w)) = docs w @ [a] \<and> oid a = next_oid w
          \<and> next_oid (snd (whatsapp_reply e now r w)) = Suc (next_oid w))"
proof (cases "signature_valid r")
  case False
  then show ?thesis by (simp add: whatsapp_reply_def)
next
  case True
  let ?h = "handle_message e now (incoming_msg_of r) (sender_number_of r) (log_received r w)"
  obtain x w1 where h: "?h = (x, w1)" by (cases ?h)
  have "docs (snd (whatsapp_reply e now r w)) = docs (snd ?h)"
    "next_oid (snd (whatsapp_reply e now r w)) = next_oid (snd ?h)"
    using True unfolding whatsapp_reply_def Let_def h by (cases x; simp)+
  then show ?thesis
    using handle_message_docs[of e now "incoming_msg_of r" "sender_number_of r" "log_received r w"]
    by simp
qed

lemma stored_service_is_empty:
  assumes "docs (snd (whatsapp_reply e now r w)) = docs w @ [a]"
  shows "service a = []"
proof (cases "signature_valid r")
  case False
  then show ?thesis using assms by (simp add: whatsapp_reply_def)
next
  case True
  let ?h = "handle_message e now (incoming_msg_of r) (sender_number_of r) (log_received r w)"
  obtain x w1 where h: "?h = (x, w1)" by (cases ?h)
  have "docs (snd (whatsapp_reply e now r w)) = docs (snd ?h)"
    using True unfolding whatsapp_reply_def Let_def h by (cases x; simp)
  then show ?thesis
    using assms handle_message_inserts[of e now "incoming_msg_of r" "sender_number_of r" "log_received r w" a]
    by simp
qed

text \<open>
  Claim C1, amended. For an authenticated message that reaches the date branch (16
  characters, no earlier test of the chain matches), and when the insert into the
  collection does not fail: a document is added if and only if the text parses and the
  parsed time is not earlier than the current time; then exactly one document is appended,
  with a fresh \<open>_id\<close>, the sender's number, the parsed date and both flags false, and the
  reply repeats that date; otherwise the collection is unchanged and the reply is the
  format error.
\<close>

theorem date_entry_creates_appointment:
  assumes "signature_valid r" and "reaches_date_entry (incoming_msg_of r)"
    and "mongo_fail e (mongo_ops w) = None"
  shows "((docs (snd (whatsapp_reply e now r w)) \<noteq> docs w)
            \<longleftrightarrow> (\<exists>d. strptime e (incoming_msg_of r) = Inr d \<and> now \<le> d))
     \<and> (\<forall>d. strptime e (incoming_msg_of r) = Inr d \<and> now \<le> d \<longrightarrow>
           docs (snd (whatsapp_reply e now r w)) = docs w @
             [\<lparr>oid = next_oid w, customer_name = ''Customer'',
               phone_number = sender_number_of r, service = [],
               appointment_date = d, reminder_sent = False, follow_up_sent = False\<rparr>]
           \<and> fst (whatsapp_reply e now r w) =
               Twiml (Some (''Your '' @ [] @ '' is scheduled for '' @ str_datetime e d
                 @ ''. You will receive a reminder 24 hours before the appointment.'')))
     \<and> (\<not> (\<exists>d. strptime e (incoming_msg_of r) = Inr d \<and> now \<le> d) \<longrightarrow>
           docs (snd (whatsapp_reply e now r w)) = docs w
           \<and> fst (whatsapp_reply e now r w) = Twiml (Some invalid_date_reply))"
proof -
  let ?m = "incoming_msg_of r" and ?s = "sender_number_of r" and ?w0 = "log_received r w"
  have ok: "mongo_fail e (mongo_ops ?w0) = None" using assms(3) by simp
  have live: "handle_message e now ?m ?s ?w0 =
    (case date_entry e now ?m ?s [] ?w0 of
       (Inl x, w1) \<Rightarrow>
         if is_ValueError x then
           (Inr (Some invalid_date_reply),
            log_add ERROR (''Invalid date format provided by '' @ ?s @ '': ''
              @ ?m @ ''. Error: '' @ str_exn x) w1)
         else (Inl x, w1)
     | (Inr b, w1) \<Rightarrow> (Inr b, w1))"
    using assms(2) by (simp add: handle_message_def reaches_date_entry_def)
  have good: "docs (snd (whatsapp_reply e now r w)) = docs w @ [new_appointment ?s [] d (next_oid w)]
       \<and> fst (whatsapp_reply e now r w) = Twiml (Some (scheduled_reply e [] d))"
    if "strptime e ?m = Inr d" "now \<le> d" for d
  proof -
    note h = that
    have nl: "\<not> d < now" using h by simp
    obtain w1 where de: "date_entry e now ?m ?s [] ?w0 = (Inr (Some (scheduled_reply e [] d)), w1)"
      and dw: "docs w1 = docs w @ [new_appointment ?s [] d (next_oid w)]"
      using h(1) nl ok by (simp add: date_entry_def insert_one_def mongo_call_def)
    show ?thesis
      using assms(1) de dw by (simp add: whatsapp_reply_def live)
  qed
  have bad: "docs (snd (whatsapp_reply e now r w)) = docs w
       \<and> fst (whatsapp_reply e now r w) = Twiml (Some invalid_date_reply)"
    if "\<not> (\<exists>d. strptime e ?m = Inr d \<and> now \<le> d)"
  proof -
    have "\<exists>x. date_entry e now ?m ?s [] ?w0 = (Inl (ValueError x), ?w0)"
      using that by (auto simp: date_entry_def not_le split: sum.splits)
    then obtain x where de: "date_entry e now ?m ?s [] ?w0 = (Inl (ValueError x), ?w0)"
      by blast
    show ?thesis
      using assms(1) de by (simp add: whatsapp_reply_def live)
  qed
  have iff: "(docs (snd (whatsapp_reply e now r w)) \<noteq> docs w)
           \<longleftrightarrow> (\<exists>d. strptime e ?m = Inr d \<and> now \<le> d)"
    using good bad by (metis append_self_conv not_Cons_self2)
  show ?thesis
    using iff good bad by (simp add: new_appointment_def scheduled_reply_def)
qed

theorem date_entry_creates_appointment_witness:
  "signature_valid (message_from alice ''2099-01-01 10:00'')
   \<and> reaches_date_entry (incoming_msg_of (message_from alice ''2099-01-01 10:00''))
   \<and> mongo_fail all_ok (mongo_ops empty_world) = None
   \<and> strptime all_ok (incoming_msg_of (message_from alice ''2099-01-01 10:00''))
       = Inr (datetime_of 2099 1 1 10 0)
   \<and> datetime_of 2024 1 1 0 0 \<le> datetime_of 2099 1 1 10 0
   \<and> docs (snd (whatsapp_reply all_ok (datetime_of 2024 1 1 0 0)
              (message_from alice ''2099-01-01 10:00'') empty_world)) \<noteq> docs empty_world"
proof -
  have h1: "signature_valid (message_from alice ''2099-01-01 10:00'')" by code_simp
  have h2: "reaches_date_entry (incoming_msg_of (message_from alice ''2099-01-01 10:00''))"
    by code_simp
  have h3: "mongo_fail all_ok (mongo_ops empty_world) = None" by code_simp
  have p: "strptime all_ok (incoming_msg_of (message_from alice ''2099-01-01 10:00''))
       = Inr (datetime_of 2099 1 1 10 0)" by code_simp
  have q: "datetime_of 2024 1 1 0 0 \<le> datetime_of 2099 1 1 10 0" by code_simp
  from date_entry_creates_appointment[OF h1 h2 h3, of "datetime_of 2024 1 1 0 0"] p q
  have "docs (snd (whatsapp_reply all_ok (datetime_of 2024 1 1 0 0)
              (message_from alice ''2099-01-01 10:00'') empty_world)) \<noteq> docs empty_world"
    by blast
  with h1 h2 h3 p q show ?thesis by blast
qed

text \<open>
  Claim C1 as stated asks for a time strictly in the future. The handler refuses only
  times earlier than the clock: at 2099-01-01 10:00:00 sharp, the text
  "2099-01-01 10:00" denotes the current instant, which is not later than itself, and
  the appointment is created all the same.
\<close>

theorem date_entry_at_current_instant:
  "reaches_date_entry (incoming_msg_of (message_from alice ''2099-01-01 10:00''))
   \<and> strptime all_ok (incoming_msg_of (message_from alice ''2099-01-01 10:00''))
       = Inr (datetime_of 2099 1 1 10 0)
   \<and> \<not> datetime_of 2099 1 1 10 0 < datetime_of 2099 1 1 10 0
   \<and> docs (snd (whatsapp_reply all_ok (datetime_of 2099 1 1 10 0)
              (message_from alice ''2099-01-01 10:00'') empty_world)) =
       [\<lparr>oid = 0, customer_name = ''Customer'', phone_number = alice, service = [],
         appointment_date = datetime_of 2099 1 1 10 0, reminder_sent = False,
         follow_up_sent = False\<rparr>]"
  by code_simp

text \<open>
  Claim C7 says that the stored service is the user's selection in title case. The
  handler keeps the selection in a local variable that is set to the empty text at the
  start of every request: \<open>alice\<close> sends "haircut" and is asked for a date for her
  "Haircut", then sends the date, and the document stored has the empty text as its
  service. By \<open>stored_service_is_empty\<close> above, every document that the handler
  inserts has an empty service.
\<close>

theorem stored_service_not_title_case:
  "fst (whatsapp_reply all_ok (datetime_of 2024 1 1 0 0)
          (message_from alice ''haircut'') empty_world) = Twiml (Some (date_prompt ''Haircut''))
   \<and> title ''haircut'' = ''Haircut''
   \<and> map service (docs (snd (whatsapp_reply all_ok (datetime_of 2024 1 1 0 0)
          (message_from alice ''2099-01-01 10:00'')
          (snd (whatsapp_reply all_ok (datetime_of 2024 1 1 0 0)
                  (message_from alice ''haircut'') empty_world))))) = ['''']"
  by code_simp

section \<open>Failures while a message is handled\<close>

text \<open>
  Claim C9. For every authenticated message the handler returns a TwiML response: no
  exception leaves it. Whenever the body of its \<open>try\<close> ends with an exception, the
  response is the generic apology and the last log line is the error with the sender and
  the text of the exception.
\<close>

theorem failures_replaced_by_apology:
  assumes "signature_valid r"
  shows "(\<exists>b. fst (whatsapp_reply e now r w) = Twiml b)
     \<and> (\<forall>x w1. handle_message e now (incoming_msg_of r) (sender_number_of r) (log_received r w)
                   = (Inl x, w1) \<longrightarrow>
           whatsapp_reply e now r w =
             (Twiml (Some error_reply),
              log_add ERROR (''Error processing message from '' @ sender_number_of r @ '': ''
                @ str_exn x) w1))"
proof -
  let ?h = "handle_message e now (incoming_msg_of r) (sender_number_of r) (log_received r w)"
  have exc: "is_Exception x" for x by (cases x) simp_all
  obtain y w1 where h: "?h = (y, w1)" by (cases ?h)
  show ?thesis
    using assms exc unfolding whatsapp_reply_def Let_def h
    by (cases y) simp_all
qed

theorem failures_replaced_by_apology_witness:
  "signature_valid (message_from alice ''2099-01-01 10:00'')
   \<and> fst (handle_message store_down (datetime_of 2024 1 1 0 0)
        (incoming_msg_of (message_from alice ''2099-01-01 10:00''))
        (sender_number_of (message_from alice ''2099-01-01 10:00''))
        (log_received (message_from alice ''2099-01-01 10:00'') empty_world))
       = Inl (PyMongoError ''unavailable'')
   \<and> fst (whatsapp_reply store_down (datetime_of 2024 1 1 0 0)
        (message_from alice ''2099-01-01 10:00'') empty_world) = Twiml (Some error_reply)"
proof -
  have h1: "signature_valid (message_from alice ''2099-01-01 10:00'')" by code_simp
  have h2: "fst (handle_message store_down (datetime_of 2024 1 1 0 0)
        (incoming_msg_of (message_from alice ''2099-01-01 10:00''))
        (sender_number_of (message_from alice ''2099-01-01 10:00''))
        (log_received (message_from alice ''2099-01-01 10:00'') empty_world))
       = Inl (PyMongoError ''unavailable'')" by code_simp
  from failures_replaced_by_apology[OF h1, of store_down "datetime_of 2024 1 1 0 0" empty_world] h2
  have "fst (whatsapp_reply store_down (datetime_of 2024 1 1 0 0)
        (message_from alice ''2099-01-01 10:00'') empty_world) = Twiml (Some error_reply)"
    by (metis fst_conv prod.collapse)
  with h1 h2 show ?thesis by blast
qed

section \<open>Buttons per message\<close>

lemma app_truncates:
  "map fst (requests (snd (send_interactive_message e to t bs w))) =
     map fst (requests w) @ [\<lparr>recipient = to, payload = Interactive t (take 3 bs)\<rparr>]"
  by (simp add: send_interactive_message_def messages_create_def Let_def split: option.splits)

lemma single_truncates:
  "map fst (requests (snd (send_single_interactive_message e to t bs w))) =
     map fst (requests w) @ [\<lparr>recipient = to, payload = Persistent t (take 2 bs)\<rparr>]"
  by (simp add: send_single_interactive_message_def messages_create_def Let_def
      split: option.splits)

lemma send_chunks_requests:
  "map fst (requests (send_chunks e to t cs w)) =
     map fst (requests w) @ map (\<lambda>c. \<lparr>recipient = to, payload = Persistent t (take 2 c)\<rparr>) cs"
  by (induction cs arbitrary: w) (simp_all add: single_truncates)

lemma chunked_requests:
  "map fst (requests (snd (send_interactive_message_chunked e to t bs w))) =
     map fst (requests w)
       @ map (\<lambda>c. \<lparr>recipient = to, payload = Persistent t (take 2 c)\<rparr>) (button_chunks bs)"
  by (simp add: send_interactive_message_chunked_def send_chunks_requests)

text \<open>
  Claim C10 asks that more choices than the cap are either cut to the cap or split over
  several messages, under one cap. \<open>send_interactive_message\<close> of app.py cuts to three
  (\<open>app_truncates\<close>). The one of _app.py splits into chunks of five and then cuts every
  chunk to two (\<open>chunked_requests\<close>): of seven buttons it sends the first two and the last
  two, in two messages, and the third, fourth and fifth are sent in none.
\<close>

theorem chunked_buttons_dropped:
  "map fst (requests (snd (send_interactive_message_chunked all_ok alice ''Pick one''
       seven_buttons empty_world))) =
     [\<lparr>recipient = alice, payload = Persistent ''Pick one''
         [\<lparr>reply_id = ''b1'', reply_title = ''One''\<rparr>, \<lparr>reply_id = ''b2'', reply_title = ''Two''\<rparr>]\<rparr>,
      \<lparr>recipient = alice, payload = Persistent ''Pick one''
         [\<lparr>reply_id = ''b6'', reply_title = ''Six''\<rparr>, \<lparr>reply_id = ''b7'', reply_title = ''Seven''\<rparr>]\<rparr>]"
  by code_simp

section \<open>The loop of a sweep\<close>

lemma reminder_loop_shape:
  "reminder_loop e as w =
     sweep_loop e (reminder_msg e) (sent_info e ''reminder'') ''reminder''
       (\<lambda>d. d\<lparr>reminder_sent := True\<rparr>) as w"
  by (induction as arbitrary: w) (simp_all add: reminder_msg_def)

lemma follow_up_loop_shape:
  "follow_up_loop e as w =
     sweep_loop e follow_up_msg (sent_info e ''follow-up'') ''follow-up''
       (\<lambda>d. d\<lparr>follow_up_sent := True\<rparr>) as w"
  by (induction as arbitrary: w) (simp_all add: follow_up_msg_def)

lemma sweep_loop_Cons:
  "sweep_loop e msg info what mark (a # as) w =
     sweep_loop e msg info what mark as (sweep_step e msg info what mark a w)"
  by (simp add: sweep_step_def)

lemma step_requests:
  "requests (sweep_step e msg info what mark a w) =
     requests w @ [(msg a, twilio_fail e (length (requests w)) = None)]"
  by (auto simp: sweep_step_def messages_create_def update_one_def mongo_call_def Let_def
      split: option.splits prod.splits sum.splits)

lemma step_next_oid:
  "next_oid (sweep_step e msg info what mark a w) = next_oid w"
  by (auto simp: sweep_step_def messages_create_def update_one_def mongo_call_def Let_def
      split: option.splits prod.splits sum.splits)

lemma step_docs:
  "docs (sweep_step e msg info what mark a w) = docs w
   \<or> (twilio_fail e (length (requests w)) = None
      \<and> docs (sweep_step e msg info what mark a w) = update_first (\<lambda>d. oid d = oid a) mark (docs w))"
  by (auto simp: sweep_step_def messages_create_def update_one_def mongo_call_def Let_def
      split: option.splits prod.splits sum.splits)

lemma step_docs_ok:
  "\<forall>j. mongo_fail e j = None \<Longrightarrow>
   docs (sweep_step e msg info what mark a w) =
     (if twilio_fail e (length (requests w)) = None
      then update_first (\<lambda>d. oid d = oid a) mark (docs w) else docs w)"
  by (auto simp: sweep_step_def messages_create_def update_one_def mongo_call_def Let_def
      split: option.splits prod.splits sum.splits)

lemma step_logs_prefix:
  "\<exists>ls. logs (sweep_step e msg info what mark a w) = logs w @ ls"
  by (auto simp: sweep_step_def messages_create_def update_one_def mongo_call_def Let_def
      split: option.splits prod.splits sum.splits)

lemma step_logs_failure:
  "twilio_fail e (length (requests w)) = Some m \<Longrightarrow>
   logs (sweep_step e msg info what mark a w)
     = logs w @ [(ERROR, failed_text what a (TwilioRestException m))]"
  by (auto simp: sweep_step_def messages_create_def update_one_def mongo_call_def Let_def
      split: option.splits prod.splits sum.splits)

lemma loop_requests:
  "requests (sweep_loop e msg info what mark as w) =
     requests w @ map (\<lambda>(a, ok). (msg a, ok)) (outcomes e (length (requests w)) as)"
proof (induction as arbitrary: w)
  case Nil
  show ?case by simp
next
  case (Cons a as)
  show ?case
    unfolding sweep_loop_Cons Cons.IH step_requests by simp
qed

lemma loop_next_oid: "next_oid (sweep_loop e msg info what mark as w) = next_oid w"
proof (induction as arbitrary: w)
  case Nil
  show ?case by simp
next
  case (Cons a as)
  show ?case unfolding sweep_loop_Cons Cons.IH step_next_oid by simp
qed

lemma loop_logs_prefix: "\<exists>ls. logs (sweep_loop e msg info what mark as w) = logs w @ ls"
proof (induction as arbitrary: w)
  case Nil
  show ?case by simp
next
  case (Cons a as)
  obtain l1 where "logs (sweep_step e msg info what mark a w) = logs w @ l1"
    using step_logs_prefix by blast
  moreover obtain l2 where "logs (sweep_loop e msg info what mark as (sweep_step e msg info what mark a w))
      = logs (sweep_step e msg info what mark a w) @ l2"
    using Cons.IH by blast
  ultimately show ?case unfolding sweep_loop_Cons by simp
qed

lemma loop_logs_failures:
  "(a, False) \<in> set (outcomes e (length (requests w)) as) \<Longrightarrow>
   \<exists>m. (ERROR, failed_text what a (TwilioRestException m))
        \<in> set (logs (sweep_loop e msg info what mark as w))"
proof (induction as arbitrary: w)
  case Nil
  then show ?case by simp
next
  case (Cons b as)
  let ?w1 = "sweep_step e msg info what mark b w"
  have len: "length (requests ?w1) = Suc (length (requests w))"
    by (simp add: step_requests)
  from Cons.prems consider
    (here) "a = b" "twilio_fail e (length (requests w)) \<noteq> None"
    | (later) "(a, False) \<in> set (outcomes e (length (requests ?w1)) as)"
    by (auto simp: len)
  then show ?case
  proof cases
    case here
    then obtain m where m: "twilio_fail e (length (requests w)) = Some m" by auto
    obtain ls where "logs (sweep_loop e msg info what mark as ?w1) = logs ?w1 @ ls"
      using loop_logs_prefix by blast
    then show ?thesis
      unfolding sweep_loop_Cons using step_logs_failure[OF m, of msg info what mark b] here(1)
      by auto
  next
    case later
    then show ?thesis unfolding sweep_loop_Cons by (rule Cons.IH)
  qed
qed

lemma update_first_length [simp]: "length (update_first p f xs) = length xs"
  by (induction xs) auto

lemma update_first_nth:
  "i < length xs \<Longrightarrow>
   update_first p f xs ! i = xs ! i \<or> (update_first p f xs ! i = f (xs ! i) \<and> p (xs ! i))"
proof (induction xs arbitrary: i)
  case Nil
  then show ?case by simp
next
  case (Cons x xs)
  then show ?case by (cases i) auto
qed

lemma loop_docs_length: "length (docs (sweep_loop e msg info what mark as w)) = length (docs w)"
proof (induction as arbitrary: w)
  case Nil
  show ?case by simp
next
  case (Cons a as)
  have "length (docs (sweep_step e msg info what mark a w)) = length (docs w)"
    using step_docs[of e msg info what mark a w] by auto
  then show ?case unfolding sweep_loop_Cons Cons.IH by simp
qed

lemma loop_docs_only_accepted:
  assumes idem: "\<And>d. mark (mark d) = mark d" and keep: "\<And>d. oid (mark d) = oid d"
    and "i < length (docs w)"
  shows "docs (sweep_loop e msg info what mark as w) ! i = docs w ! i
     \<or> (docs (sweep_loop e msg info what mark as w) ! i = mark (docs w ! i)
        \<and> (\<exists>a. (a, True) \<in> set (outcomes e (length (requests w)) as) \<and> oid a = oid (docs w ! i)))"
  using assms(3)
proof (induction as arbitrary: w)
  case Nil
  show ?case by simp
next
  case (Cons b as)
  let ?w1 = "sweep_step e msg info what mark b w"
  have len: "length (requests ?w1) = Suc (length (requests w))"
    by (simp add: step_requests)
  have dl: "length (docs ?w1) = length (docs w)"
    using step_docs[of e msg info what mark b w] by auto
  have mid: "docs ?w1 ! i = docs w ! i
      \<or> (docs ?w1 ! i = mark (docs w ! i) \<and> twilio_fail e (length (requests w)) = None
          \<and> oid b = oid (docs w ! i))"
    using step_docs[of e msg info what mark b w] update_first_nth[OF Cons.prems, of "\<lambda>d. oid d = oid b" mark]
    by auto
  have i1: "i < length (docs ?w1)" using Cons.prems dl by simp
  note ih = Cons.IH[OF i1]
  show ?case
    unfolding sweep_loop_Cons using ih mid
    by (auto simp: len idem keep)
qed

lemma update_first_distinct:
  "distinct (map oid xs) \<Longrightarrow>
   update_first (\<lambda>d. oid d = i) f xs = map (\<lambda>d. if oid d = i then f d else d) xs"
proof (induction xs)
  case Nil
  show ?case by simp
next
  case (Cons x xs)
  show ?case
  proof (cases "oid x = i")
    case True
    then have "\<forall>d \<in> set xs. oid d \<noteq> i" using Cons.prems by (auto simp: image_iff)
    then have "map (\<lambda>d. if oid d = i then f d else d) xs = xs"
      by (induction xs) auto
    then show ?thesis using True by simp
  next
    case False
    then show ?thesis using Cons by simp
  qed
qed

lemma loop_docs_all_ok:
  assumes idem: "\<And>d. mark (mark d) = mark d" and keep: "\<And>d. oid (mark d) = oid d"
    and ok: "\<forall>j. mongo_fail e j = None"
    and "distinct (map oid (docs w))"
  shows "docs (sweep_loop e msg info what mark as w) =
     map (\<lambda>d. if \<exists>a. (a, True) \<in> set (outcomes e (length (requests w)) as) \<and> oid a = oid d
               then mark d else d) (docs w)"
  using assms(4)
proof (induction as arbitrary: w)
  case Nil
  show ?case by simp
next
  case (Cons b as)
  let ?w1 = "sweep_step e msg info what mark b w"
  let ?acc = "twilio_fail e (length (requests w)) = None"
  have len: "length (requests ?w1) = Suc (length (requests w))"
    by (simp add: step_requests)
  have d1: "docs ?w1 = map (\<lambda>d. if ?acc \<and> oid d = oid b then mark d else d) (docs w)"
    using step_docs_ok[OF ok, of msg info what mark b w] update_first_distinct[OF Cons.prems]
    by (cases "twilio_fail e (length (requests w))") simp_all
  have "map oid (docs ?w1) = map oid (docs w)"
    unfolding d1 by (simp add: keep comp_def cong: map_cong)
  then have dist1: "distinct (map oid (docs ?w1))" using Cons.prems by simp
  show ?case
    unfolding sweep_loop_Cons Cons.IH[OF dist1] len d1
    by (auto simp: idem keep)
qed

lemma outcomes_fst [simp]: "map fst (outcomes e k as) = as"
  by (induction as arbitrary: k) simp_all

lemma outcomes_subset: "(a, ok) \<in> set (outcomes e k as) \<Longrightarrow> a \<in> set as"
  by (induction as arbitrary: k) auto

lemma send_reminder_run:
  assumes "mongo_fail e (mongo_ops w) = None"
  shows "send_reminder e now w =
     (Inr (), sweep_loop e (reminder_msg e) (sent_info e ''reminder'') ''reminder''
        (\<lambda>d. d\<lparr>reminder_sent := True\<rparr>) (filter (reminder_due now) (docs w))
        ((log_add INFO ''Running reminder job.'' w)\<lparr>mongo_ops := Suc (mongo_ops w)\<rparr>))"
  using assms
  by (simp add: send_reminder_def find_docs_def mongo_call_def reminder_loop_shape)

lemma send_follow_up_run:
  assumes "mongo_fail e (mongo_ops w) = None"
  shows "send_follow_up e now w =
     (Inr (), sweep_loop e follow_up_msg (sent_info e ''follow-up'') ''follow-up''
        (\<lambda>d. d\<lparr>follow_up_sent := True\<rparr>) (filter (follow_up_due now) (docs w))
        ((log_add INFO ''Running follow-up job.'' w)\<lparr>mongo_ops := Suc (mongo_ops w)\<rparr>))"
  using assms
  by (simp add: send_follow_up_def find_docs_def mongo_call_def follow_up_loop_shape)

lemma send_reminder_down:
  assumes "mongo_fail e (mongo_ops w) = Some m"
  shows "docs (snd (send_reminder e now w)) = docs w"
    and "next_oid (snd (send_reminder e now w)) = next_oid w"
  using assms by (simp_all add: send_reminder_def find_docs_def mongo_call_def)

lemma send_follow_up_down:
  assumes "mongo_fail e (mongo_ops w) = Some m"
  shows "docs (snd (send_follow_up e now w)) = docs w"
    and "next_oid (snd (send_follow_up e now w)) = next_oid w"
  using assms by (simp_all add: send_follow_up_def find_docs_def mongo_call_def)

text \<open>What one run of the loop does to the calls, the documents and the log.\<close>

lemma sweep_run:
  fixes mark :: "appointment \<Rightarrow> appointment" and w0 w :: world and e :: env
    and msg :: "appointment \<Rightarrow> outbound" and info :: "appointment \<Rightarrow> string"
    and what :: string and sel :: "appointment list"
  assumes idem: "\<And>d. mark (mark d) = mark d" and keep: "\<And>d. oid (mark d) = oid d"
    and w0: "docs w0 = docs w" "requests w0 = requests w"
  defines "w' \<equiv> sweep_loop e msg info what mark sel w0"
    and "out \<equiv> outcomes e (length (requests w)) sel"
  shows "requests w' = requests w @ map (\<lambda>(a, ok). (msg a, ok)) out"
    and "length (docs w') = length (docs w)"
    and "\<forall>i < length (docs w). docs w' ! i = docs w ! i
            \<or> (docs w' ! i = mark (docs w ! i)
               \<and> (\<exists>a. (a, True) \<in> set out \<and> oid a = oid (docs w ! i)))"
    and "(\<forall>j. mongo_fail e j = None) \<and> distinct (map oid (docs w)) \<longrightarrow>
           docs w' = map (\<lambda>d. if \<exists>a. (a, True) \<in> set out \<and> oid a = oid d then mark d else d) (docs w)"
    and "\<forall>a. (a, False) \<in> set out \<longrightarrow>
           (\<exists>m. (ERROR, failed_text what a (TwilioRestException m)) \<in> set (logs w'))"
proof -
  show "requests w' = requests w @ map (\<lambda>(a, ok). (msg a, ok)) out"
    unfolding w'_def out_def loop_requests w0 by simp
  show "length (docs w') = length (docs w)"
    unfolding w'_def loop_docs_length w0 by simp
  show "\<forall>i < length (docs w). docs w' ! i = docs w ! i
            \<or> (docs w' ! i = mark (docs w ! i)
               \<and> (\<exists>a. (a, True) \<in> set out \<and> oid a = oid (docs w ! i)))"
    unfolding w'_def out_def
    using loop_docs_only_accepted[of mark _ w0 e msg info what sel, OF idem keep] w0 by simp
  show "(\<forall>j. mongo_fail e j = None) \<and> distinct (map oid (docs w)) \<longrightarrow>
           docs w' = map (\<lambda>d. if \<exists>a. (a, True) \<in> set out \<and> oid a = oid d then mark d else d) (docs w)"
    unfolding w'_def out_def
    using loop_docs_all_ok[of mark e w0 msg info what sel, OF idem keep] w0 by simp
  show "\<forall>a. (a, False) \<in> set out \<longrightarrow>
           (\<exists>m. (ERROR, failed_text what a (TwilioRestException m)) \<in> set (logs w'))"
    unfolding w'_def out_def
    using loop_logs_failures[of _ e w0 sel what msg info mark] w0 by simp
qed

lemma bson_datetime_bounds: "bson_datetime d \<le> d \<and> d < bson_datetime d + 1000"
proof -
  have "bson_datetime d = d - d mod 1000"
    by (simp add: bson_datetime_def minus_mod_eq_div_mult)
  then show ?thesis
    using pos_mod_sign[of 1000 d] pos_mod_bound[of 1000 d] by simp
qed

lemma bson_upper_bound_exact:
  assumes "a mod 1000 = 0"
  shows "(a \<le> bson_datetime d) = (a \<le> d)"
proof
  assume "a \<le> bson_datetime d"
  then show "a \<le> d" using bson_datetime_bounds[of d] by simp
next
  assume "a \<le> d"
  then have "a div 1000 \<le> d div 1000" by (simp add: zdiv_mono1)
  then have "a div 1000 * 1000 \<le> d div 1000 * 1000" by simp
  moreover have "a div 1000 * 1000 = a" using assms by (simp add: mod_eq_0_iff_dvd)
  ultimately show "a \<le> bson_datetime d" by (simp add: bson_datetime_def)
qed

text \<open>
  Claim C4, amended. When the query of a sweep succeeds, the sweep ends normally and, with
  \<open>sel\<close> the documents whose date is in the window and whose flag is false, in their order:
  the sweep makes exactly one call to the provider per document of \<open>sel\<close>, in that order,
  with the text naming the service (and, for the reminder, the time), whatever the
  outcome of the earlier calls; a document is changed only by having its flag set, and
  only if the call made for a document with its \<open>_id\<close> was accepted; when no operation on
  the collection fails and the \<open>_id\<close>s are distinct, the flag is set for exactly those
  documents; and every refused call leaves an error line in the log. The reminder sweep
  has the window from 23 to 25 hours after now and the flag \<open>reminder_sent\<close>, the follow-up
  sweep the window from 24 hours before now to now and the flag \<open>follow_up_sent\<close>; both
  bounds of a window are cut to whole milliseconds, as the collection receives them. By
  \<open>bson_datetime_bounds\<close> the lower bound is less than a millisecond early, and by
  \<open>bson_upper_bound_exact\<close> the upper bound is the exact one for a date of whole
  milliseconds.
\<close>

theorem sweep_tick:
  assumes "mongo_fail e (mongo_ops w) = None"
  shows
   "(let sel = filter (\<lambda>a. bson_datetime (now + timedelta_hours 23) \<le> appointment_date a
                         \<and> appointment_date a \<le> bson_datetime (now + timedelta_hours 25)
                         \<and> \<not> reminder_sent a) (docs w);
         out = outcomes e (length (requests w)) sel;
         w' = snd (send_reminder e now w)
     in fst (send_reminder e now w) = Inr ()
        \<and> map fst out = sel
        \<and> requests w' = requests w @
            map (\<lambda>(a, ok). (\<lparr>recipient = phone_number a,
                              payload = Text (''Reminder: Your '' @ service a
                                @ '' appointment is scheduled for ''
                                @ str_datetime e (appointment_date a) @ ''.'')\<rparr>, ok)) out
        \<and> length (docs w') = length (docs w)
        \<and> (\<forall>i < length (docs w). docs w' ! i = docs w ! i
              \<or> (docs w' ! i = (docs w ! i)\<lparr>reminder_sent := True\<rparr>
                 \<and> (\<exists>a. (a, True) \<in> set out \<and> oid a = oid (docs w ! i))))
        \<and> ((\<forall>j. mongo_fail e j = None) \<and> distinct (map oid (docs w)) \<longrightarrow>
              docs w' = map (\<lambda>d. if \<exists>a. (a, True) \<in> set out \<and> oid a = oid d
                                  then d\<lparr>reminder_sent := True\<rparr> else d) (docs w))
        \<and> (\<forall>a. (a, False) \<in> set out \<longrightarrow>
              (\<exists>m. (ERROR, ''Failed to send reminder to '' @ phone_number a @ '': '' @ m)
                     \<in> set (logs w'))))
    \<and>
    (let sel = filter (\<lambda>a. bson_datetime (now - timedelta_hours 24) \<le> appointment_date a
                         \<and> appointment_date a \<le> bson_datetime now
                         \<and> \<not> follow_up_sent a) (docs w);
         out = outcomes e (length (requests w)) sel;
         w' = snd (send_follow_up e now w)
     in fst (send_follow_up e now w) = Inr ()
        \<and> map fst out = sel
        \<and> requests w' = requests w @
            map (\<lambda>(a, ok). (\<lparr>recipient = phone_number a,
                              payload = Text (''Hope you enjoyed your '' @ service a
                                @ ''! Let us know if you need anything else.'')\<rparr>, ok)) out
        \<and> length (docs w') = length (docs w)
        \<and> (\<forall>i < length (docs w). docs w' ! i = docs w ! i
              \<or> (docs w' ! i = (docs w ! i)\<lparr>follow_up_sent := True\<rparr>
                 \<and> (\<exists>a. (a, True) \<in> set out \<and> oid a = oid (docs w ! i))))
        \<and> ((\<forall>j. mongo_fail e j = None) \<and> distinct (map oid (docs w)) \<longrightarrow>
              docs w' = map (\<lambda>d. if \<exists>a. (a, True) \<in> set out \<and> oid a = oid d
                                  then d\<lparr>follow_up_sent := True\<rparr> else d) (docs w))
        \<and> (\<forall>a. (a, False) \<in> set out \<longrightarrow>
              (\<exists>m. (ERROR, ''Failed to send follow-up to '' @ phone_number a @ '': '' @ m)
                     \<in> set (logs w'))))"
proof -
  let ?w0 = "(log_add INFO ''Running reminder job.'' w)\<lparr>mongo_ops := Suc (mongo_ops w)\<rparr>"
  let ?w1 = "(log_add INFO ''Running follow-up job.'' w)\<lparr>mongo_ops := Suc (mongo_ops w)\<rparr>"
  have due1: "reminder_due now = (\<lambda>a. bson_datetime (now + timedelta_hours 23) \<le> appointment_date a
                         \<and> appointment_date a \<le> bson_datetime (now + timedelta_hours 25)
                         \<and> \<not> reminder_sent a)"
    by (simp add: reminder_due_def fun_eq_iff)
  have due2: "follow_up_due now = (\<lambda>a. bson_datetime (now - timedelta_hours 24) \<le> appointment_date a
                         \<and> appointment_date a \<le> bson_datetime now
                         \<and> \<not> follow_up_sent a)"
    by (simp add: follow_up_due_def fun_eq_iff)
  note r = sweep_run[where mark = "\<lambda>d. d\<lparr>reminder_sent := True\<rparr>" and ?w0.0 = ?w0 and w = w
      and e = e and msg = "reminder_msg e" and info = "sent_info e ''reminder''"
      and what = "''reminder''" and sel = "filter (reminder_due now) (docs w)",
      unfolded due1, simplified]
  note f = sweep_run[where mark = "\<lambda>d. d\<lparr>follow_up_sent := True\<rparr>" and ?w0.0 = ?w1 and w = w
      and e = e and msg = follow_up_msg and info = "sent_info e ''follow-up''"
      and what = "''follow-up''" and sel = "filter (follow_up_due now) (docs w)",
      unfolded due2, simplified]
  show ?thesis
    unfolding Let_def send_reminder_run[OF assms] send_follow_up_run[OF assms] due1 due2
      fst_conv snd_conv
    using r f
    by (simp add: reminder_msg_def follow_up_msg_def reminder_text_def follow_up_text_def
        failed_text_def)
qed

lemma booked_world_eq:
  "booked_world =
     \<lparr>docs = [\<lparr>oid = 0, customer_name = ''Customer'', phone_number = alice, service = [],
         appointment_date = datetime_of 2099 1 1 10 0, reminder_sent = False,
         follow_up_sent = False\<rparr>],
      next_oid = 1, mongo_ops = 1, requests = [],
      logs = [(INFO, ''Received message from whatsapp:+15550001: 2099-01-01 10:00''),
              (DEBUG, ''Full request details: Body=2099-01-01 10:00, From=whatsapp:+15550001''),
              (INFO, ''Scheduling  for whatsapp:+15550001 on 2099-01-01 10:00:00.'')]\<rparr>"
  by code_simp

theorem sweep_tick_witness:
  "mongo_fail all_ok (mongo_ops booked_world) = None
   \<and> fst (send_reminder all_ok (datetime_of 2098 12 31 10 0) booked_world) = Inr ()
   \<and> length (docs (snd (send_reminder all_ok (datetime_of 2098 12 31 10 0) booked_world)))
       = length (docs booked_world)
   \<and> requests (snd (send_reminder all_ok (datetime_of 2098 12 31 10 0) booked_world)) =
       [(\<lparr>recipient = alice,
          payload = Text ''Reminder: Your  appointment is scheduled for 2099-01-01 10:00:00.''\<rparr>,
         True)]
   \<and> map reminder_sent (docs (snd (send_reminder all_ok (datetime_of 2098 12 31 10 0) booked_world)))
       = [True]
   \<and> requests (snd (send_reminder all_ok (datetime_of 2098 12 31 8 59) booked_world)) = []"
proof -
  have h: "mongo_fail all_ok (mongo_ops booked_world) = None" by code_simp
  have a: "requests (snd (send_reminder all_ok (datetime_of 2098 12 31 10 0) booked_world)) =
       [(\<lparr>recipient = alice,
          payload = Text ''Reminder: Your  appointment is scheduled for 2099-01-01 10:00:00.''\<rparr>,
         True)]" by code_simp
  have b: "map reminder_sent (docs (snd (send_reminder all_ok (datetime_of 2098 12 31 10 0) booked_world)))
       = [True]" by code_simp
  have c: "requests (snd (send_reminder all_ok (datetime_of 2098 12 31 8 59) booked_world)) = []"
    by code_simp
  from sweep_tick[OF h, of "datetime_of 2098 12 31 10 0"]
  have "fst (send_reminder all_ok (datetime_of 2098 12 31 10 0) booked_world) = Inr ()
    \<and> length (docs (snd (send_reminder all_ok (datetime_of 2098 12 31 10 0) booked_world)))
       = length (docs booked_world)"
    by (simp add: Let_def)
  with h a b c show ?thesis by blast
qed

text \<open>
  Claim C4 as stated takes the windows at the precision of the clock. The appointment of
  \<open>booked_world\<close> is at 2099-01-01 10:00:00. One microsecond after 2098-12-31 11:00:00 it
  is earlier than now plus 23 hours, and the reminder sweep selects it, sends its reminder
  and sets its flag; 999 microseconds after 2099-01-02 10:00:00 it is earlier than now
  minus 24 hours, and the follow-up sweep selects it and sends its message.
\<close>

theorem sweep_window_at_clock_precision:
  "map appointment_date (docs booked_world) = [datetime_of 2099 1 1 10 0]
   \<and> \<not> (datetime_of 2098 12 31 11 0 + 1 + timedelta_hours 23 \<le> datetime_of 2099 1 1 10 0)
   \<and> requests (snd (send_reminder all_ok (datetime_of 2098 12 31 11 0 + 1) booked_world)) =
       [(\<lparr>recipient = alice,
          payload = Text ''Reminder: Your  appointment is scheduled for 2099-01-01 10:00:00.''\<rparr>,
         True)]
   \<and> map reminder_sent
         (docs (snd (send_reminder all_ok (datetime_of 2098 12 31 11 0 + 1) booked_world)))
       = [True]
   \<and> \<not> (datetime_of 2099 1 2 10 0 + 999 - timedelta_hours 24 \<le> datetime_of 2099 1 1 10 0)
   \<and> requests (snd (send_follow_up all_ok (datetime_of 2099 1 2 10 0 + 999) booked_world)) =
       [(\<lparr>recipient = alice,
          payload = Text ''Hope you enjoyed your ! Let us know if you need anything else.''\<rparr>,
         True)]
   \<and> map follow_up_sent
         (docs (snd (send_follow_up all_ok (datetime_of 2099 1 2 10 0 + 999) booked_world)))
       = [True]"
  by code_simp

section \<open>What the stored documents keep\<close>

lemma evolves_positionwise:
  assumes "distinct (map oid xs)" "length ys = length xs"
    and "\<And>i. i < length xs \<Longrightarrow> same_or_later (xs ! i) (ys ! i)"
  shows "\<forall>a \<in> set xs. \<forall>b \<in> set ys. oid b = oid a \<longrightarrow> same_or_later a b"
proof (intro ballI impI)
  fix a b assume a: "a \<in> set xs" and b: "b \<in> set ys" and eq: "oid b = oid a"
  obtain i where i: "i < length xs" "xs ! i = a" using a by (auto simp: in_set_conv_nth)
  obtain j where j: "j < length ys" "ys ! j = b" using b by (auto simp: in_set_conv_nth)
  have "oid (xs ! j) = oid (ys ! j)" using assms(3)[of j] j assms(2) by (simp add: same_or_later_def)
  then have "map oid xs ! j = map oid xs ! i" using i j eq assms(2) by simp
  moreover have "i < length (map oid xs)" "j < length (map oid xs)" using i j assms(2) by simp_all
  ultimately have "i = j" using nth_eq_iff_index_eq[OF assms(1), of j i] by blast
  then show "same_or_later a b" using assms(3)[of i] i j by simp
qed

lemma map_oid_positionwise:
  assumes "length ys = length xs"
    and "\<And>i. i < length xs \<Longrightarrow> oid (ys ! i) = oid (xs ! i)"
  shows "map oid ys = map oid xs"
  using assms by (simp add: list_eq_iff_nth_eq)

lemma sweep_evolves:
  assumes idem: "\<And>d. mark (mark d) = mark d" and later: "\<And>d. same_or_later d (mark d)"
    and inv: "store_inv w"
  shows "evolves w (sweep_loop e msg info what mark as w)
     \<and> store_inv (sweep_loop e msg info what mark as w)"
proof -
  let ?w' = "sweep_loop e msg info what mark as w"
  have keep: "\<And>d. oid (mark d) = oid d" using later by (simp add: same_or_later_def)
  have refl: "\<And>d. same_or_later d d" by (simp add: same_or_later_def)
  have pos: "same_or_later (docs w ! i) (docs ?w' ! i)" if "i < length (docs w)" for i
    using loop_docs_only_accepted[of mark i w e msg info what as, OF idem keep that] later refl
    by auto
  have len: "length (docs ?w') = length (docs w)" by (rule loop_docs_length)
  have dist: "distinct (map oid (docs w))" using inv by (simp add: store_inv_def)
  have ev: "evolves w ?w'"
    unfolding evolves_def using evolves_positionwise[OF dist len pos] by blast
  have oids: "map oid (docs ?w') = map oid (docs w)"
    using map_oid_positionwise[OF len] pos by (simp add: same_or_later_def)
  have "oid b < next_oid w" if "b \<in> set (docs ?w')" for b
  proof -
    have "oid b \<in> set (map oid (docs ?w'))" using that by simp
    then have "oid b \<in> set (map oid (docs w))" using oids by simp
    then show ?thesis using inv by (auto simp: store_inv_def)
  qed
  then have "\<forall>b \<in> set (docs ?w'). oid b < next_oid w" by blast
  then have "store_inv ?w'"
    using dist oids by (simp add: store_inv_def loop_next_oid)
  with ev show ?thesis by simp
qed

lemma store_inv_after_log:
  "store_inv ((log_add l m w)\<lparr>mongo_ops := n\<rparr>) = store_inv w"
  by (simp add: store_inv_def)

lemma mark_reminder:
  "(d\<lparr>reminder_sent := True\<rparr>)\<lparr>reminder_sent := True\<rparr> = d\<lparr>reminder_sent := True\<rparr>"
  "same_or_later d (d\<lparr>reminder_sent := True\<rparr>)"
  by (simp_all add: same_or_later_def)

lemma mark_follow_up:
  "(d\<lparr>follow_up_sent := True\<rparr>)\<lparr>follow_up_sent := True\<rparr> = d\<lparr>follow_up_sent := True\<rparr>"
  "same_or_later d (d\<lparr>follow_up_sent := True\<rparr>)"
  by (simp_all add: same_or_later_def)

lemma evolves_same_docs:
  assumes "store_inv w" "docs w' = docs w" "next_oid w' = next_oid w"
  shows "evolves w w' \<and> store_inv w'"
proof -
  have "inj_on oid (set (docs w))" using assms(1) by (simp add: store_inv_def distinct_map)
  then have "a = b" if "a \<in> set (docs w)" "b \<in> set (docs w)" "oid b = oid a" for a b
    using that by (auto dest: inj_onD)
  then show ?thesis using assms by (auto simp: evolves_def store_inv_def same_or_later_def)
qed

lemma evolves_via_other:
  assumes "store_inv w" "docs w0 = docs w" "next_oid w0 = next_oid w"
    and "evolves w0 w' \<and> store_inv w'"
  shows "evolves w w' \<and> store_inv w'"
  using assms by (simp add: evolves_def)

lemma send_reminder_evolves:
  assumes "store_inv w"
  shows "evolves w (snd (send_reminder e now w)) \<and> store_inv (snd (send_reminder e now w))"
proof (cases "mongo_fail e (mongo_ops w)")
  case None
  let ?w0 = "(log_add INFO ''Running reminder job.'' w)\<lparr>mongo_ops := Suc (mongo_ops w)\<rparr>"
  have "store_inv ?w0" using assms by (simp add: store_inv_after_log)
  from sweep_evolves[of "\<lambda>d. d\<lparr>reminder_sent := True\<rparr>", OF mark_reminder this]
  show ?thesis
    unfolding send_reminder_run[OF None] snd_conv
    by (intro evolves_via_other[OF assms, of ?w0]) simp_all
next
  case (Some m)
  show ?thesis using evolves_same_docs[OF assms send_reminder_down[OF Some]] .
qed

lemma send_follow_up_evolves:
  assumes "store_inv w"
  shows "evolves w (snd (send_follow_up e now w)) \<and> store_inv (snd (send_follow_up e now w))"
proof (cases "mongo_fail e (mongo_ops w)")
  case None
  let ?w0 = "(log_add INFO ''Running follow-up job.'' w)\<lparr>mongo_ops := Suc (mongo_ops w)\<rparr>"
  have "store_inv ?w0" using assms by (simp add: store_inv_after_log)
  from sweep_evolves[of "\<lambda>d. d\<lparr>follow_up_sent := True\<rparr>", OF mark_follow_up this]
  show ?thesis
    unfolding send_follow_up_run[OF None] snd_conv
    by (intro evolves_via_other[OF assms, of ?w0]) simp_all
next
  case (Some m)
  show ?thesis using evolves_same_docs[OF assms send_follow_up_down[OF Some]] .
qed

lemma remove_first_subset: "set (remove_first p xs) \<subseteq> set xs"
  by (induction xs) auto

lemma remove_first_distinct: "distinct (map f xs) \<Longrightarrow> distinct (map f (remove_first p xs))"
proof (induction xs)
  case Nil
  show ?case by simp
next
  case (Cons x xs)
  have "f x \<notin> f ` set (remove_first p xs)" using Cons.prems remove_first_subset[of p xs] by auto
  then show ?case using Cons by simp
qed

lemma same_oid_same_doc:
  assumes "store_inv w" "x \<in> set (docs w)" "y \<in> set (docs w)" "oid y = oid x"
  shows "x = y"
proof -
  have "inj_on oid (set (docs w))" using assms(1) by (simp add: store_inv_def distinct_map)
  then show ?thesis using assms(2-4) by (auto dest: inj_onD)
qed

lemma evolves_insert:
  assumes "store_inv w" "docs w' = docs w @ [a]" "oid a = next_oid w" "next_oid w' = Suc (next_oid w)"
  shows "evolves w w' \<and> store_inv w'"
proof -
  have fresh: "oid x \<noteq> oid a" if "x \<in> set (docs w)" for x
    using assms(1,3) that by (auto simp: store_inv_def)
  have "same_or_later x y" if "x \<in> set (docs w)" "y \<in> set (docs w')" "oid y = oid x" for x y
  proof -
    have "y \<noteq> a" using fresh[OF that(1)] that(3) by auto
    then have "y \<in> set (docs w)" using that(2) assms(2) by simp
    then have "x = y" using same_oid_same_doc[OF assms(1) that(1)] that(3) by simp
    then show ?thesis by (simp add: same_or_later_def)
  qed
  then have "evolves w w'" unfolding evolves_def by blast
  moreover have "store_inv w'"
    using assms fresh by (auto simp: store_inv_def less_Suc_eq)
  ultimately show ?thesis by simp
qed

lemma evolves_delete:
  assumes "store_inv w" "docs w' = remove_first p (docs w)" "next_oid w' = next_oid w"
  shows "evolves w w' \<and> store_inv w'"
proof -
  have sub: "set (docs w') \<subseteq> set (docs w)" using assms(2) remove_first_subset by metis
  have "same_or_later x y" if "x \<in> set (docs w)" "y \<in> set (docs w')" "oid y = oid x" for x y
  proof -
    have "y \<in> set (docs w)" using that(2) sub by blast
    then have "x = y" using same_oid_same_doc[OF assms(1) that(1)] that(3) by simp
    then show ?thesis by (simp add: same_or_later_def)
  qed
  then have "evolves w w'" unfolding evolves_def by blast
  moreover have "store_inv w'"
    using assms sub remove_first_distinct[of oid "docs w" p] by (auto simp: store_inv_def)
  ultimately show ?thesis by simp
qed

lemma whatsapp_reply_evolves:
  assumes "store_inv w"
  shows "evolves w (snd (whatsapp_reply e now r w)) \<and> store_inv (snd (whatsapp_reply e now r w))"
  using whatsapp_reply_docs[of e now r w] evolves_same_docs[OF assms] evolves_insert[OF assms]
  by blast

lemma delete_one_evolves:
  assumes "store_inv w"
  shows "evolves w (snd (delete_one e i w)) \<and> store_inv (snd (delete_one e i w))"
proof (cases "mongo_fail e (mongo_ops w)")
  case None
  then show ?thesis
    using evolves_delete[OF assms, of "snd (delete_one e i w)" "\<lambda>a. oid a = i"]
    by (simp add: delete_one_def mongo_call_def)
next
  case (Some m)
  then show ?thesis
    using evolves_same_docs[OF assms, of "snd (delete_one e i w)"]
    by (simp add: delete_one_def mongo_call_def)
qed

text \<open>
  Claim C5. On a well-formed collection, each operation leaves every document that it
  keeps with the date it had, and with every flag that was true still true: the webhook
  handler (which may insert), the delete of a cancellation, the reminder sweep and the
  follow-up sweep (which set flags). Each of them keeps the collection well formed.
\<close>

theorem store_fields_monotone:
  assumes "store_inv w"
  shows "(evolves w (snd (whatsapp_reply e now r w)) \<and> store_inv (snd (whatsapp_reply e now r w)))
     \<and> (evolves w (snd (delete_one e i w)) \<and> store_inv (snd (delete_one e i w)))
     \<and> (evolves w (snd (send_reminder e now w)) \<and> store_inv (snd (send_reminder e now w)))
     \<and> (evolves w (snd (send_follow_up e now w)) \<and> store_inv (snd (send_follow_up e now w)))"
  using whatsapp_reply_evolves[OF assms] delete_one_evolves[OF assms]
    send_reminder_evolves[OF assms] send_follow_up_evolves[OF assms]
  by blast

theorem store_fields_monotone_witness:
  "store_inv booked_world
   \<and> evolves booked_world (snd (send_reminder all_ok (datetime_of 2098 12 31 10 0) booked_world))
   \<and> map reminder_sent (docs (snd (send_reminder all_ok (datetime_of 2098 12 31 10 0) booked_world)))
       = [True]
   \<and> map appointment_date (docs (snd (send_reminder all_ok (datetime_of 2098 12 31 10 0) booked_world)))
       = map appointment_date (docs booked_world)"
proof -
  have h: "store_inv booked_world" by (simp add: booked_world_eq store_inv_def)
  have a: "map reminder_sent (docs (snd (send_reminder all_ok (datetime_of 2098 12 31 10 0) booked_world)))
       = [True]" by code_simp
  have b: "map appointment_date (docs (snd (send_reminder all_ok (datetime_of 2098 12 31 10 0) booked_world)))
       = map appointment_date (docs booked_world)" by code_simp
  from store_fields_monotone[OF h, of all_ok "datetime_of 2098 12 31 10 0"] h a b
  show ?thesis by blast
qed

section \<open>Two runs of the reminder sweep\<close>

lemma accepted_subset: "a \<in> set (accepted e k as) \<Longrightarrow> (a, True) \<in> set (outcomes e k as)"
  by (auto simp: accepted_def)

lemma accepted_Cons:
  "accepted e k (a # as) =
     (if twilio_fail e k = None then a # accepted e (Suc k) as else accepted e (Suc k) as)"
  by (simp add: accepted_def)

lemma accepted_distinct:
  "distinct (map f as) \<Longrightarrow> distinct (map f (accepted e k as))"
proof (induction as arbitrary: k)
  case Nil
  show ?case by (simp add: accepted_def)
next
  case (Cons a as)
  have sub: "set (accepted e (Suc k) as) \<subseteq> set as"
    using accepted_subset outcomes_subset by fastforce
  have "f a \<notin> f ` set (accepted e (Suc k) as)" using Cons.prems sub by auto
  then show ?case using Cons by (simp add: accepted_Cons)
qed

text \<open>
  Claim C8. Run the reminder sweep twice, the second run on the state that the first one
  left, with no operation on the collection failing (so every flag set by the first run
  is stored before the second run queries). Then the calls made by the two runs are those
  for the documents selected by the first run followed by those selected by the second,
  and the documents whose call was accepted have pairwise different \<open>_id\<close>s: no
  appointment gets a second reminder.
\<close>

theorem reminder_twice_at_most_once:
  assumes "store_inv w" and "\<forall>j. mongo_fail e j = None"
  shows "(let w1 = snd (send_reminder e now1 w);
              w2 = snd (send_reminder e now2 w1);
              first = outcomes e (length (requests w)) (filter (reminder_due now1) (docs w));
              second = outcomes e (length (requests w1)) (filter (reminder_due now2) (docs w1))
          in requests w2 = requests w @ map (\<lambda>(a, ok). (reminder_msg e a, ok)) (first @ second)
             \<and> distinct (map oid (map fst (filter snd (first @ second)))))"
proof -
  let ?mark = "\<lambda>d. d\<lparr>reminder_sent := True\<rparr>"
  let ?w1 = "snd (send_reminder e now1 w)"
  let ?w2 = "snd (send_reminder e now2 ?w1)"
  let ?sel1 = "filter (reminder_due now1) (docs w)"
  let ?sel2 = "filter (reminder_due now2) (docs ?w1)"
  let ?out1 = "outcomes e (length (requests w)) ?sel1"
  let ?out2 = "outcomes e (length (requests ?w1)) ?sel2"
  let ?w0 = "(log_add INFO ''Running reminder job.'' w)\<lparr>mongo_ops := Suc (mongo_ops w)\<rparr>"
  let ?w10 = "(log_add INFO ''Running reminder job.'' ?w1)\<lparr>mongo_ops := Suc (mongo_ops ?w1)\<rparr>"
  have ok: "mongo_fail e (mongo_ops v) = None" for v using assms(2) by simp
  have dist: "distinct (map oid (docs w))" using assms(1) by (simp add: store_inv_def)
  have inv1: "store_inv ?w1" using send_reminder_evolves[OF assms(1)] by blast
  then have dist1: "distinct (map oid (docs ?w1))" by (simp add: store_inv_def)
  note run1 = sweep_run[where mark = ?mark and ?w0.0 = ?w0 and w = w and e = e
      and msg = "reminder_msg e" and info = "sent_info e ''reminder''"
      and what = "''reminder''" and sel = ?sel1, simplified]
  note run2 = sweep_run[where mark = ?mark and ?w0.0 = ?w10 and w = ?w1 and e = e
      and msg = "reminder_msg e" and info = "sent_info e ''reminder''"
      and what = "''reminder''" and sel = ?sel2, simplified]
  have w1: "?w1 = sweep_loop e (reminder_msg e) (sent_info e ''reminder'') ''reminder'' ?mark ?sel1 ?w0"
    by (simp add: send_reminder_run[OF ok])
  have w2: "?w2 = sweep_loop e (reminder_msg e) (sent_info e ''reminder'') ''reminder'' ?mark ?sel2 ?w10"
    by (simp add: send_reminder_run[OF ok])
  have req1: "requests ?w1 = requests w @ map (\<lambda>(a, ok). (reminder_msg e a, ok)) ?out1"
    using run1(1) w1 by simp
  have req2: "requests ?w2 = requests ?w1 @ map (\<lambda>(a, ok). (reminder_msg e a, ok)) ?out2"
    using run2(1) w2 by simp
  have docs1: "docs ?w1 = map (\<lambda>d. if \<exists>a. (a, True) \<in> set ?out1 \<and> oid a = oid d
                                   then ?mark d else d) (docs w)"
    using run1(4) w1 assms(2) dist by simp
  have d1: "distinct (map oid (accepted e (length (requests w)) ?sel1))"
    using dist by (intro accepted_distinct) (simp add: distinct_map_filter)
  have d2: "distinct (map oid (accepted e (length (requests ?w1)) ?sel2))"
    using dist1 by (intro accepted_distinct) (simp add: distinct_map_filter)
  have disj: "oid a1 \<noteq> oid a2"
    if "a1 \<in> set (accepted e (length (requests w)) ?sel1)"
      and "a2 \<in> set (accepted e (length (requests ?w1)) ?sel2)" for a1 a2
  proof
    let ?f = "\<lambda>d. if \<exists>a. (a, True) \<in> set ?out1 \<and> oid a = oid d then ?mark d else d"
    assume eq: "oid a1 = oid a2"
    have acc: "(a1, True) \<in> set ?out1" using that(1) by (rule accepted_subset)
    have "a2 \<in> set ?sel2" using that(2) accepted_subset outcomes_subset by fastforce
    then have in1: "a2 \<in> set (docs ?w1)" and unsent: "\<not> reminder_sent a2"
      by (simp_all add: reminder_due_def)
    have "a2 \<in> ?f ` set (docs w)" using in1 docs1 by (metis set_map)
    then obtain d where "d \<in> set (docs w)" and a2: "a2 = ?f d" by blast
    have "oid a2 = oid d" using a2 by (simp split: if_splits)
    then have "\<exists>a. (a, True) \<in> set ?out1 \<and> oid a = oid d" using acc eq by auto
    then have "reminder_sent a2" using a2 by simp
    with unsent show False by simp
  qed
  have "distinct (map oid (accepted e (length (requests w)) ?sel1
                           @ accepted e (length (requests ?w1)) ?sel2))"
    using d1 d2 disj by auto
  then have "distinct (map oid (map fst (filter snd (?out1 @ ?out2))))"
    by (simp add: accepted_def)
  moreover have "requests ?w2 = requests w @ map (\<lambda>(a, ok). (reminder_msg e a, ok)) (?out1 @ ?out2)"
    using req1 req2 by simp
  ultimately show ?thesis by (simp add: Let_def)
qed

theorem reminder_twice_at_most_once_witness:
  "store_inv booked_world
   \<and> (\<forall>j. mongo_fail all_ok j = None)
   \<and> requests (snd (send_reminder all_ok (datetime_of 2098 12 31 10 1)
        (snd (send_reminder all_ok (datetime_of 2098 12 31 10 0) booked_world)))) =
       [(\<lparr>recipient = alice,
          payload = Text ''Reminder: Your  appointment is scheduled for 2099-01-01 10:00:00.''\<rparr>,
         True)]
   \<and> distinct (map oid (map fst (filter snd
        (outcomes all_ok (length (requests booked_world))
           (filter (reminder_due (datetime_of 2098 12 31 10 0)) (docs booked_world))
         @ outcomes all_ok
             (length (requests (snd (send_reminder all_ok (datetime_of 2098 12 31 10 0) booked_world))))
             (filter (reminder_due (datetime_of 2098 12 31 10 1))
                (docs (snd (send_reminder all_ok (datetime_of 2098 12 31 10 0) booked_world))))))))"
proof -
  have h1: "store_inv booked_world" by (simp add: booked_world_eq store_inv_def)
  have h2: "\<forall>j. mongo_fail all_ok j = None"
    by (simp add: all_ok_def env_of_def always_ok_def)
  have a: "requests (snd (send_reminder all_ok (datetime_of 2098 12 31 10 1)
        (snd (send_reminder all_ok (datetime_of 2098 12 31 10 0) booked_world)))) =
       [(\<lparr>recipient = alice,
          payload = Text ''Reminder: Your  appointment is scheduled for 2099-01-01 10:00:00.''\<rparr>,
         True)]" by code_simp
  from reminder_twice_at_most_once[OF h1 h2, of "datetime_of 2098 12 31 10 0" "datetime_of 2098 12 31 10 1"] h1 h2 a
  show ?thesis by (simp add: Let_def)
qed

end
